theory Spec2Isabelle
  imports Complex_Main "HOL-Library.Char_ord" "HOL-Library.List_Lexorder"
    "HOL-Library.Product_Lexorder"
begin

section \<open>The sales ETL pipeline: data frames\<close>

text \<open>
  \<^verbatim>\<open>etl.py\<close> works on pandas data frames. A frame is modelled as the list of its column
  labels and the list of its rows; a row carries its index label and one cell per column.
  A cell is a missing marker (NaN, NaT, None), a text, a number or a timestamp. Numbers are
  exact rationals: the float64 rounding error and the infinities of IEEE arithmetic are
  outside the model. Text is ASCII.

  A timestamp is the tuple (year, month, day, time of day); tuples are ordered
  lexicographically, which is the chronological order.
\<close>

type_synonym timestamp = "int \<times> nat \<times> nat \<times> nat"

definition ts_year :: "timestamp \<Rightarrow> int" where
  "ts_year t = fst t"

definition ts_month :: "timestamp \<Rightarrow> nat" where
  "ts_month t = fst (snd t)"

datatype cell = NA | Str string | Num rat | Ts timestamp

datatype error =
    ValueError "string set"  \<comment> \<open>\<^verbatim>\<open>Missing columns in CSV: {...}\<close>, with the set of names\<close>
  | KeyError string          \<comment> \<open>pandas: a label that is not a column\<close>

type_synonym row = "int \<times> cell list"

record frame =
  columns :: "string list"
  rows :: "row list"

definition bind :: "error + 'a \<Rightarrow> ('a \<Rightarrow> error + 'b) \<Rightarrow> error + 'b" where
  "bind m f = (case m of Inl e \<Rightarrow> Inl e | Inr x \<Rightarrow> f x)"

subsection \<open>Column access\<close>

text \<open>
  Position of the first column with a label; the number of columns when there is none. A
  label is looked up at its first position.
\<close>

fun pos :: "string list \<Rightarrow> string \<Rightarrow> nat" where
  "pos [] c = 0"
| "pos (x # xs) c = (if x = c then 0 else Suc (pos xs c))"

definition cell_at :: "string list \<Rightarrow> string \<Rightarrow> cell list \<Rightarrow> cell" where
  "cell_at cs c r = (let i = pos cs c in if i < length r then r ! i else NA)"

text \<open>\<^verbatim>\<open>df[c]\<close>: the cells of column \<open>c\<close>, one per row; KeyError when there is no such column.\<close>

definition getitem :: "frame \<Rightarrow> string \<Rightarrow> error + cell list" where
  "getitem df c =
     (if c \<in> set (columns df) then Inr (map (\<lambda>r. cell_at (columns df) c (snd r)) (rows df))
      else Inl (KeyError c))"

text \<open>
  \<^verbatim>\<open>df[c] = values\<close>: an existing column is overwritten in place, a new one is appended
  on the right. The values come from a series computed from \<open>df\<close> itself, so they are
  aligned with the rows.
\<close>

definition setitem :: "frame \<Rightarrow> string \<Rightarrow> cell list \<Rightarrow> frame" where
  "setitem df c vs =
     (if c \<in> set (columns df)
      then df\<lparr>rows := map2 (\<lambda>r v. (fst r, (snd r)[pos (columns df) c := v])) (rows df) vs\<rparr>
      else \<lparr>columns = columns df @ [c],
            rows = map2 (\<lambda>r v. (fst r, snd r @ [v])) (rows df) vs\<rparr>)"

text \<open>\<^verbatim>\<open>df[mask]\<close>: the rows whose mask entry is true.\<close>

definition getitem_mask :: "frame \<Rightarrow> bool list \<Rightarrow> frame" where
  "getitem_mask df m = df\<lparr>rows := map fst (filter snd (zip (rows df) m))\<rparr>"

text \<open>\<^verbatim>\<open>df[cols]\<close>: the listed columns in the listed order.\<close>

definition getitem_cols :: "frame \<Rightarrow> string list \<Rightarrow> error + frame" where
  "getitem_cols df cols =
     (case filter (\<lambda>c. c \<notin> set (columns df)) cols of
        c # _ \<Rightarrow> Inl (KeyError c)
      | [] \<Rightarrow> Inr \<lparr>columns = cols,
                  rows = map (\<lambda>r. (fst r, map (\<lambda>c. cell_at (columns df) c (snd r)) cols))
                           (rows df)\<rparr>)"

subsection \<open>Column names\<close>

text \<open>\<^verbatim>\<open>c.strip().lower()\<close> on ASCII text.\<close>

definition is_space :: "char \<Rightarrow> bool" where
  "is_space c = (of_char c \<in> {9, 10, 11, 12, 13, 28, 29, 30, 31, 32 :: nat})"

definition strip :: "string \<Rightarrow> string" where
  "strip s = rev (dropWhile is_space (rev (dropWhile is_space s)))"

definition lower_char :: "char \<Rightarrow> char" where
  "lower_char c =
     (let n = of_char c :: nat in if 65 \<le> n \<and> n \<le> 90 then char_of (n + 32) else c)"

definition lower :: "string \<Rightarrow> string" where
  "lower s = map lower_char s"

definition std_name :: "string \<Rightarrow> string" where
  "std_name c = lower (strip c)"

definition rename :: "(string \<Rightarrow> string) \<Rightarrow> frame \<Rightarrow> frame" where
  "rename f df = df\<lparr>columns := map f (columns df)\<rparr>"

definition required :: "string set" where
  "required = {''date'', ''region'', ''product'', ''sales'', ''quantity'', ''profit''}"

subsection \<open>Coercion\<close>

text \<open>
  \<^verbatim>\<open>pd.to_datetime(..., errors="coerce")\<close> and \<^verbatim>\<open>pd.to_numeric(..., errors="coerce")\<close>
  are library parsers. They are parameters of the model: a parser maps a cell to a value or
  to nothing, and with \<^verbatim>\<open>errors="coerce"\<close> nothing becomes the missing marker.
\<close>

definition to_datetime :: "(cell \<Rightarrow> timestamp option) \<Rightarrow> cell list \<Rightarrow> cell list" where
  "to_datetime parse s = map (\<lambda>c. case parse c of None \<Rightarrow> NA | Some t \<Rightarrow> Ts t) s"

definition to_numeric :: "(cell \<Rightarrow> rat option) \<Rightarrow> cell list \<Rightarrow> cell list" where
  "to_numeric parse s = map (\<lambda>c. case parse c of None \<Rightarrow> NA | Some x \<Rightarrow> Num x) s"

text \<open>The loop \<^verbatim>\<open>for col in ["sales", "quantity", "profit"]\<close>.\<close>

fun coerce_numeric :: "(cell \<Rightarrow> rat option) \<Rightarrow> string list \<Rightarrow> frame \<Rightarrow> error + frame" where
  "coerce_numeric parse [] df = Inr df"
| "coerce_numeric parse (col # cols) df =
     bind (getitem df col) (\<lambda>s. coerce_numeric parse cols (setitem df col (to_numeric parse s)))"

subsection \<open>Cleaning\<close>

definition fillna :: "cell \<Rightarrow> cell list \<Rightarrow> cell list" where
  "fillna v s = map (\<lambda>c. if c = NA then v else c) s"

definition replace :: "cell \<Rightarrow> cell \<Rightarrow> cell list \<Rightarrow> cell list" where
  "replace old new s = map (\<lambda>c. if c = old then new else c) s"

text \<open>
  \<^verbatim>\<open>df.duplicated()\<close>: a row is marked when an earlier row has the same cells in every
  column (missing markers compare equal); the index label is not compared.
\<close>

fun duplicated :: "cell list list \<Rightarrow> cell list list \<Rightarrow> bool list" where
  "duplicated seen [] = []"
| "duplicated seen (r # rs) = (r \<in> set seen) # duplicated (r # seen) rs"

definition drop_duplicates :: "frame \<Rightarrow> frame" where
  "drop_duplicates df =
     getitem_mask df (map Not (duplicated [] (map snd (rows df))))"

text \<open>\<^verbatim>\<open>df.dropna(subset=...)\<close>: the rows with no missing marker in the listed columns.\<close>

definition dropna :: "string list \<Rightarrow> frame \<Rightarrow> error + frame" where
  "dropna cols df =
     (case filter (\<lambda>c. c \<notin> set (columns df)) cols of
        c # _ \<Rightarrow> Inl (KeyError c)
      | [] \<Rightarrow> Inr (getitem_mask df
                (map (\<lambda>r. list_all (\<lambda>c. cell_at (columns df) c (snd r) \<noteq> NA) cols)
                   (rows df))))"

text \<open>
  \<^verbatim>\<open>series > 0\<close> on a coerced column, which holds numbers and missing markers: a
  comparison with a missing marker is false.
\<close>

fun gt0 :: "cell \<Rightarrow> bool" where
  "gt0 (Num x) = (x > 0)"
| "gt0 _ = False"

subsection \<open>Derived fields\<close>

text \<open>
  Series division. Float division by zero does not raise in pandas (it gives an infinity
  or NaN); the model has no infinities and marks that branch with the missing marker.
\<close>

fun cell_div :: "cell \<Rightarrow> cell \<Rightarrow> cell" where
  "cell_div (Num a) (Num b) = (if b = 0 then NA else Num (a / b))"
| "cell_div _ _ = NA"

text \<open>\<^verbatim>\<open>Series.round(d)\<close>: scale by \<open>10 ^ d\<close>, round half to even, scale back.\<close>

definition rint :: "rat \<Rightarrow> int" where
  "rint x =
     (let f = \<lfloor>x\<rfloor>; r = x - of_int f
      in if r < 1 / 2 then f else if 1 / 2 < r then f + 1 else if even f then f else f + 1)"

definition round_dec :: "nat \<Rightarrow> rat \<Rightarrow> rat" where
  "round_dec d x = of_int (rint (x * 10 ^ d)) / 10 ^ d"

fun cell_round :: "nat \<Rightarrow> cell \<Rightarrow> cell" where
  "cell_round d (Num x) = Num (round_dec d x)"
| "cell_round d c = c"

text \<open>\<^verbatim>\<open>.dt.year\<close> and \<^verbatim>\<open>.dt.month\<close> of a datetime column.\<close>

fun dt_year :: "cell \<Rightarrow> cell" where
  "dt_year (Ts t) = Num (of_int (ts_year t))"
| "dt_year _ = NA"

fun dt_month :: "cell \<Rightarrow> cell" where
  "dt_month (Ts t) = Num (of_nat (ts_month t))"
| "dt_month _ = NA"

subsection \<open>Sorting\<close>

text \<open>
  \<^verbatim>\<open>df.sort_values(keys)\<close> sorts the rows by the listed columns, first key first, and is
  stable. Within a column, numbers are ordered by value, timestamps by time and text
  lexicographically; in a column of mixed kinds numbers come before text, and missing
  markers go last. A cell is ordered through \<open>cell_key\<close>, a row through the list of the
  keys of its sort columns (lists are ordered lexicographically).
\<close>

fun cell_key :: "cell \<Rightarrow> nat \<times> timestamp \<times> string \<times> rat" where
  "cell_key (Num x) = (0, (0, 0, 0, 0), [], x)"
| "cell_key (Ts t) = (1, t, [], 0)"
| "cell_key (Str s) = (2, (0, 0, 0, 0), s, 0)"
| "cell_key NA = (3, (0, 0, 0, 0), [], 0)"

definition sort_values :: "string list \<Rightarrow> frame \<Rightarrow> error + frame" where
  "sort_values keys df =
     (case filter (\<lambda>c. c \<notin> set (columns df)) keys of
        c # _ \<Rightarrow> Inl (KeyError c)
      | [] \<Rightarrow>
          Inr (df\<lparr>rows :=
                 sort_key (\<lambda>r. map (\<lambda>c. cell_key (cell_at (columns df) c (snd r))) keys)
                   (rows df)\<rparr>))"

text \<open>\<^verbatim>\<open>df.reset_index(drop=True)\<close>: the index labels become 0, 1, 2, ...\<close>

definition reset_index :: "frame \<Rightarrow> frame" where
  "reset_index df = df\<lparr>rows := zip (map int [0 ..< length (rows df)]) (map snd (rows df))\<rparr>"

section \<open>The transform step\<close>

text \<open>The stages of \<^verbatim>\<open>transform\<close>, in the order of the source (lines 33 to 70).\<close>

text \<open>Lines 33 to 39: standard column names, and the check of the required columns.\<close>

definition validate_columns :: "frame \<Rightarrow> error + frame" where
  "validate_columns df0 =
     (let df = rename std_name df0;
          missing = required - set (columns df)
      in if missing \<noteq> {} then Inl (ValueError missing) else Inr df)"

text \<open>Line 42: \<^verbatim>\<open>df["date"] = pd.to_datetime(df["date"], errors="coerce")\<close>.\<close>

definition parse_date :: "(cell \<Rightarrow> timestamp option) \<Rightarrow> frame \<Rightarrow> error + frame" where
  "parse_date parse df =
     bind (getitem df ''date'') (\<lambda>s. Inr (setitem df ''date'' (to_datetime parse s)))"

text \<open>Lines 42 to 46: the date column, then the three numeric columns.\<close>

definition coerce ::
  "(cell \<Rightarrow> timestamp option) \<Rightarrow> (cell \<Rightarrow> rat option) \<Rightarrow> frame \<Rightarrow> error + frame" where
  "coerce parse_dt parse_num df =
     bind (parse_date parse_dt df)
       (coerce_numeric parse_num [''sales'', ''quantity'', ''profit''])"

text \<open>
  Lines 49 and 50: \<^verbatim>\<open>df["region"].fillna("Unknown").replace({"": "Unknown"})\<close>, then
  \<^verbatim>\<open>df.drop_duplicates()\<close>.
\<close>

definition clean_values :: "frame \<Rightarrow> error + frame" where
  "clean_values df =
     bind (getitem df ''region'') (\<lambda>s.
       Inr (drop_duplicates
         (setitem df ''region''
            (replace (Str []) (Str ''Unknown'') (fillna (Str ''Unknown'') s)))))"

text \<open>Lines 54 and 55: \<^verbatim>\<open>dropna\<close>, then the mask \<^verbatim>\<open>(quantity > 0) & (sales > 0)\<close>.\<close>

definition drop_bad_rows :: "frame \<Rightarrow> error + frame" where
  "drop_bad_rows df =
     bind (dropna [''date'', ''product'', ''quantity'', ''sales'', ''profit''] df) (\<lambda>df.
     bind (getitem df ''quantity'') (\<lambda>q.
     bind (getitem df ''sales'') (\<lambda>s.
       Inr (getitem_mask df (map2 (\<and>) (map gt0 q) (map gt0 s))))))"

text \<open>Lines 60 to 63: the derived fields.\<close>

definition add_derived :: "frame \<Rightarrow> error + frame" where
  "add_derived df =
     bind (getitem df ''sales'') (\<lambda>s.
     bind (getitem df ''quantity'') (\<lambda>q.
     let df = setitem df ''unit_price'' (map (cell_round 2) (map2 cell_div s q)) in
     bind (getitem df ''profit'') (\<lambda>p.
     bind (getitem df ''sales'') (\<lambda>s.
     let df = setitem df ''profit_margin'' (map (cell_round 4) (map2 cell_div p s)) in
     bind (getitem df ''date'') (\<lambda>d.
     let df = setitem df ''year'' (map dt_year d) in
     bind (getitem df ''date'') (\<lambda>d.
       Inr (setitem df ''month'' (map dt_month d))))))))"

text \<open>Lines 66 to 70: projection, sort and new index.\<close>

definition cols :: "string list" where
  "cols = [''date'', ''year'', ''month'', ''region'', ''product'',
           ''quantity'', ''unit_price'', ''sales'', ''profit'', ''profit_margin'']"

definition order_columns :: "frame \<Rightarrow> error + frame" where
  "order_columns df =
     bind (getitem_cols df cols) (\<lambda>df.
     bind (sort_values [''date'', ''region'', ''product''] df) (\<lambda>df.
       Inr (reset_index df)))"

text \<open>
  The result of \<^verbatim>\<open>transform\<close>: the returned frame, and the number that line 57 writes
  to the log (\<^verbatim>\<open>Dropped n bad rows\<close>).
\<close>

record result =
  dropped :: int
  table :: frame

definition transform ::
  "(cell \<Rightarrow> timestamp option) \<Rightarrow> (cell \<Rightarrow> rat option) \<Rightarrow> frame \<Rightarrow> error + result" where
  "transform parse_dt parse_num df0 =
     bind (validate_columns df0) (\<lambda>df.
     bind (coerce parse_dt parse_num df) (\<lambda>df.
     bind (clean_values df) (\<lambda>df.
     let before = length (rows df) in
     bind (drop_bad_rows df) (\<lambda>df.
     let after = length (rows df) in
     bind (add_derived df) (\<lambda>df.
     bind (order_columns df) (\<lambda>df.
       Inr \<lparr>dropped = int before - int after, table = df\<rparr>))))))"

subsection \<open>Parsers for plain decimal text\<close>

text \<open>
  Two parsers on which the pipeline can be run: \<open>parse_iso\<close> reads a calendar date
  written \<^verbatim>\<open>YYYY-MM-DD\<close> (years 1678 to 2261, the range of a pandas timestamp),
  \<open>parse_dec\<close> reads an optionally signed decimal integer; a cell that already is a
  timestamp or a number is kept. Both agree with the pandas parsers on such cells;
  everything else they reject, where pandas accepts more.
\<close>

definition digit :: "char \<Rightarrow> int option" where
  "digit c = (let n = of_char c :: int in if 48 \<le> n \<and> n \<le> 57 then Some (n - 48) else None)"

fun digits :: "int \<Rightarrow> string \<Rightarrow> int option" where
  "digits a [] = Some a"
| "digits a (c # cs) = (case digit c of None \<Rightarrow> None | Some d \<Rightarrow> digits (10 * a + d) cs)"

definition parse_nat :: "string \<Rightarrow> int option" where
  "parse_nat s = (if s = [] then None else digits 0 s)"

fun parse_dec :: "cell \<Rightarrow> rat option" where
  "parse_dec (Str s) =
     (case s of
        [] \<Rightarrow> None
      | c # cs \<Rightarrow>
          if c = CHR ''-'' then map_option (\<lambda>n. - of_int n) (parse_nat cs)
          else map_option of_int (parse_nat s))"
| "parse_dec (Num x) = Some x"
| "parse_dec _ = None"

definition days_in_month :: "int \<Rightarrow> int \<Rightarrow> int" where
  "days_in_month y m =
     (if m = 2 then (if y mod 4 = 0 \<and> (y mod 100 \<noteq> 0 \<or> y mod 400 = 0) then 29 else 28)
      else if m = 4 \<or> m = 6 \<or> m = 9 \<or> m = 11 then 30 else 31)"

fun parse_iso :: "cell \<Rightarrow> timestamp option" where
  "parse_iso (Str s) =
     (if length s = 10 \<and> s ! 4 = CHR ''-'' \<and> s ! 7 = CHR ''-'' then
        (case (parse_nat (take 4 s), parse_nat (take 2 (drop 5 s)), parse_nat (drop 8 s)) of
           (Some y, Some m, Some d) \<Rightarrow>
             if 1678 \<le> y \<and> y \<le> 2261 \<and> 1 \<le> m \<and> m \<le> 12 \<and> 1 \<le> d \<and> d \<le> days_in_month y m
             then Some (y, nat m, nat d, 0) else None
         | _ \<Rightarrow> None)
      else None)"
| "parse_iso (Ts t) = Some t"
| "parse_iso _ = None"

section \<open>The report of the top products\<close>






section \<open>Notions used in the statements\<close>

text \<open>
  Every row of a frame has one cell per column; pandas keeps this for every data frame.
\<close>

definition len_ok :: "frame \<Rightarrow> bool" where
  "len_ok df = (\<forall>r \<in> set (rows df). length (snd r) = length (columns df))"

text \<open>
  Frame operations seen row by row: \<open>upd\<close> rewrites the cell of an existing column from
  its old value, \<open>put\<close> stores a cell under a label as \<open>setitem\<close> does, and
  \<open>with_col\<close> is the list of labels afterwards.
\<close>

definition upd :: "string list \<Rightarrow> string \<Rightarrow> (cell \<Rightarrow> cell) \<Rightarrow> cell list \<Rightarrow> cell list" where
  "upd cs c f r = r[pos cs c := f (cell_at cs c r)]"

definition put :: "string list \<Rightarrow> string \<Rightarrow> cell \<Rightarrow> cell list \<Rightarrow> cell list" where
  "put cs c v r = (if c \<in> set cs then r[pos cs c := v] else r @ [v])"

definition with_col :: "string list \<Rightarrow> string \<Rightarrow> string list" where
  "with_col cs c = (if c \<in> set cs then cs else cs @ [c])"

definition map_rows :: "(cell list \<Rightarrow> cell list) \<Rightarrow> frame \<Rightarrow> frame" where
  "map_rows f df = df\<lparr>rows := map (\<lambda>r. (fst r, f (snd r))) (rows df)\<rparr>"

text \<open>The rows that \<open>drop_duplicates\<close> keeps, given the cells seen so far.\<close>

fun first_rows :: "cell list set \<Rightarrow> row list \<Rightarrow> row list" where
  "first_rows seen [] = []"
| "first_rows seen (r # rs) =
     (if snd r \<in> seen then first_rows seen rs else r # first_rows (insert (snd r) seen) rs)"

text \<open>
  What the stages do to one row whose labels are \<open>cs\<close>: the cell conversions of the
  coercer, the region fill, the two tests of the row filter, and the four derived cells.
\<close>

definition dt_cell :: "(cell \<Rightarrow> timestamp option) \<Rightarrow> cell \<Rightarrow> cell" where
  "dt_cell p c = (case p c of None \<Rightarrow> NA | Some t \<Rightarrow> Ts t)"

definition num_cell :: "(cell \<Rightarrow> rat option) \<Rightarrow> cell \<Rightarrow> cell" where
  "num_cell p c = (case p c of None \<Rightarrow> NA | Some x \<Rightarrow> Num x)"

definition fill_region :: "cell \<Rightarrow> cell" where
  "fill_region c =
     (let c' = (if c = NA then Str ''Unknown'' else c)
      in if c' = Str [] then Str ''Unknown'' else c')"

definition coerce_row ::
  "(cell \<Rightarrow> timestamp option) \<Rightarrow> (cell \<Rightarrow> rat option) \<Rightarrow> string list \<Rightarrow> cell list \<Rightarrow> cell list"
  where
  "coerce_row pd pn cs r =
     upd cs ''profit'' (num_cell pn) (upd cs ''quantity'' (num_cell pn)
       (upd cs ''sales'' (num_cell pn) (upd cs ''date'' (dt_cell pd) r)))"

definition no_missing :: "string list \<Rightarrow> row \<Rightarrow> bool" where
  "no_missing cs r =
     list_all (\<lambda>c. cell_at cs c (snd r) \<noteq> NA)
       [''date'', ''product'', ''quantity'', ''sales'', ''profit'']"

definition positive :: "string list \<Rightarrow> row \<Rightarrow> bool" where
  "positive cs r = (gt0 (cell_at cs ''quantity'' (snd r)) \<and> gt0 (cell_at cs ''sales'' (snd r)))"

definition derived_cols :: "string list \<Rightarrow> string list" where
  "derived_cols cs =
     with_col (with_col (with_col (with_col cs ''unit_price'') ''profit_margin'') ''year'')
       ''month''"

definition derive_row :: "string list \<Rightarrow> cell list \<Rightarrow> cell list" where
  "derive_row cs r =
     (let r1 = put cs ''unit_price''
                 (cell_round 2 (cell_div (cell_at cs ''sales'' r) (cell_at cs ''quantity'' r))) r;
          cs1 = with_col cs ''unit_price'';
          r2 = put cs1 ''profit_margin''
                 (cell_round 4 (cell_div (cell_at cs1 ''profit'' r1) (cell_at cs1 ''sales'' r1))) r1;
          cs2 = with_col cs1 ''profit_margin'';
          r3 = put cs2 ''year'' (dt_year (cell_at cs2 ''date'' r2)) r2;
          cs3 = with_col cs2 ''year''
      in put cs3 ''month'' (dt_month (cell_at cs3 ''date'' r3)) r3)"

definition sort_cols :: "string list" where
  "sort_cols = [''date'', ''region'', ''product'']"

definition row_key :: "string list \<Rightarrow> row \<Rightarrow> (nat \<times> timestamp \<times> string \<times> rat) list" where
  "row_key cs r = map (\<lambda>c. cell_key (cell_at cs c (snd r))) sort_cols"

definition project :: "string list \<Rightarrow> cell list \<Rightarrow> cell list" where
  "project cs r = map (\<lambda>c. cell_at cs c r) cols"

text \<open>
  The rows of the frame between the stages, for an input frame \<open>df0\<close>: after coercion and
  region fill, after the removal of duplicates, after the row filter, and as they are
  written to the output before sorting.
\<close>

definition std_cols :: "frame \<Rightarrow> string list" where
  "std_cols df0 = map std_name (columns df0)"

definition prepared_rows ::
  "(cell \<Rightarrow> timestamp option) \<Rightarrow> (cell \<Rightarrow> rat option) \<Rightarrow> frame \<Rightarrow> row list" where
  "prepared_rows pd pn df0 =
     map (\<lambda>r. (fst r, upd (std_cols df0) ''region'' fill_region
                         (coerce_row pd pn (std_cols df0) (snd r))))
       (rows df0)"

definition deduped_rows ::
  "(cell \<Rightarrow> timestamp option) \<Rightarrow> (cell \<Rightarrow> rat option) \<Rightarrow> frame \<Rightarrow> row list" where
  "deduped_rows pd pn df0 = first_rows {} (prepared_rows pd pn df0)"

definition kept_rows ::
  "(cell \<Rightarrow> timestamp option) \<Rightarrow> (cell \<Rightarrow> rat option) \<Rightarrow> frame \<Rightarrow> row list" where
  "kept_rows pd pn df0 =
     filter (positive (std_cols df0)) (filter (no_missing (std_cols df0)) (deduped_rows pd pn df0))"

definition out_row :: "string list \<Rightarrow> row \<Rightarrow> row" where
  "out_row cs r = (fst r, project (derived_cols cs) (derive_row cs (snd r)))"




section \<open>The sanitizer as the specification words it\<close>

text \<open>
  Section 4.3 of the specification, step by step, on a coerced frame: (1) replace a missing
  or empty region by the sentinel; (2) remove the rows that repeat an earlier row in all
  columns, the first occurrence staying where it is; (3) remove every row with a missing
  value in date, product, quantity, sales or profit; (4) remove every remaining row with
  quantity \<open>\<le> 0\<close> or sales \<open>\<le> 0\<close>.
\<close>

definition spec_step1 :: "frame \<Rightarrow> frame" where
  "spec_step1 df =
     df\<lparr>rows :=
          map (\<lambda>r. if cell_at (columns df) ''region'' (snd r) = NA \<or>
                      cell_at (columns df) ''region'' (snd r) = Str []
                   then (fst r, (snd r)[pos (columns df) ''region'' := Str ''Unknown''])
                   else r)
            (rows df)\<rparr>"

fun keep_first :: "row list \<Rightarrow> row list" where
  "keep_first [] = []"
| "keep_first (r # rs) = r # keep_first (filter (\<lambda>x. snd x \<noteq> snd r) rs)"

definition spec_step2 :: "frame \<Rightarrow> frame" where
  "spec_step2 df = df\<lparr>rows := keep_first (rows df)\<rparr>"

definition spec_step3 :: "frame \<Rightarrow> frame" where
  "spec_step3 df =
     df\<lparr>rows :=
          filter (\<lambda>r. \<not> list_ex (\<lambda>c. cell_at (columns df) c (snd r) = NA)
                          [''date'', ''product'', ''quantity'', ''sales'', ''profit''])
            (rows df)\<rparr>"

fun le0 :: "cell \<Rightarrow> bool" where
  "le0 (Num x) = (x \<le> 0)"
| "le0 _ = False"

definition spec_step4 :: "frame \<Rightarrow> frame" where
  "spec_step4 df =
     df\<lparr>rows :=
          filter (\<lambda>r. \<not> (le0 (cell_at (columns df) ''quantity'' (snd r)) \<or>
                        le0 (cell_at (columns df) ''sales'' (snd r))))
            (rows df)\<rparr>"

definition spec_sanitize :: "frame \<Rightarrow> frame" where
  "spec_sanitize df = spec_step4 (spec_step3 (spec_step2 (spec_step1 df)))"

subsection \<open>Example frames\<close>

text \<open>
  A raw frame with padded and capitalised column names and an extra column. Row 0 has an
  empty region and a negative profit; row 2 repeats row 1; row 3 differs from row 1 in the
  extra column only; row 4 has a zero quantity; row 5 has a malformed date and no region;
  row 6 has a blank as region.
\<close>

definition sales_frame :: frame where
  "sales_frame =
     \<lparr>columns = [''Date'', '' Region'', ''product'', ''quantity'', ''sales'', ''profit'', ''note''],
      rows =
        [(0, [Str ''2024-02-01'', Str [], Str ''Gadget'', Str ''5'', Str ''50'', Str ''-5'', Str ''a'']),
         (1, [Str ''2024-01-05'', Str ''East'', Str ''Widget'', Str ''10'', Str ''100'', Str ''20'', Str ''a'']),
         (2, [Str ''2024-01-05'', Str ''East'', Str ''Widget'', Str ''10'', Str ''100'', Str ''20'', Str ''a'']),
         (3, [Str ''2024-01-05'', Str ''East'', Str ''Widget'', Str ''10'', Str ''100'', Str ''20'', Str ''b'']),
         (4, [Str ''2024-01-05'', Str ''East'', Str ''Widget'', Str ''0'', Str ''100'', Str ''20'', Str ''a'']),
         (5, [Str ''not-a-date'', NA, Str ''Widget'', Str ''10'', Str ''100'', Str ''20'', Str ''a'']),
         (6, [Str ''2024-03-01'', Str '' '', Str ''Gizmo'', Str ''4'', Str ''10'', Str ''1'', Str ''a''])]\<rparr>"

definition sales_result :: result where
  "sales_result =
     \<lparr>dropped = 2,
      table =
        \<lparr>columns = [''date'', ''year'', ''month'', ''region'', ''product'',
                    ''quantity'', ''unit_price'', ''sales'', ''profit'', ''profit_margin''],
         rows =
           [(0, [Ts (2024, 1, 5, 0), Num 2024, Num 1, Str ''East'', Str ''Widget'',
                 Num 10, Num 10, Num 100, Num 20, Num (1 / 5)]),
            (1, [Ts (2024, 1, 5, 0), Num 2024, Num 1, Str ''East'', Str ''Widget'',
                 Num 10, Num 10, Num 100, Num 20, Num (1 / 5)]),
            (2, [Ts (2024, 2, 1, 0), Num 2024, Num 2, Str ''Unknown'', Str ''Gadget'',
                 Num 5, Num 10, Num 50, Num (- 5), Num (- 1 / 10)]),
            (3, [Ts (2024, 3, 1, 0), Num 2024, Num 3, Str '' '', Str ''Gizmo'',
                 Num 4, Num (5 / 2), Num 10, Num 1, Num (1 / 10)])]\<rparr>\<rparr>"

text \<open>Two rows that differ in the extra column only.\<close>

definition twin_frame :: frame where
  "twin_frame =
     \<lparr>columns = [''date'', ''region'', ''product'', ''quantity'', ''sales'', ''profit'', ''note''],
      rows =
        [(0, [Str ''2024-01-05'', Str ''East'', Str ''Widget'', Str ''10'', Str ''100'', Str ''20'', Str ''a'']),
         (1, [Str ''2024-01-05'', Str ''East'', Str ''Widget'', Str ''10'', Str ''100'', Str ''20'', Str ''b''])]\<rparr>"

definition twin_result :: result where
  "twin_result =
     \<lparr>dropped = 0,
      table =
        \<lparr>columns = [''date'', ''year'', ''month'', ''region'', ''product'',
                    ''quantity'', ''unit_price'', ''sales'', ''profit'', ''profit_margin''],
         rows =
           [(0, [Ts (2024, 1, 5, 0), Num 2024, Num 1, Str ''East'', Str ''Widget'',
                 Num 10, Num 10, Num 100, Num 20, Num (1 / 5)]),
            (1, [Ts (2024, 1, 5, 0), Num 2024, Num 1, Str ''East'', Str ''Widget'',
                 Num 10, Num 10, Num 100, Num 20, Num (1 / 5)])]\<rparr>\<rparr>"


text \<open>The row of the scenario: an empty region and a negative profit.\<close>

definition gadget_frame :: frame where
  "gadget_frame =
     \<lparr>columns = [''date'', ''region'', ''product'', ''quantity'', ''sales'', ''profit''],
      rows = [(0, [Str ''2024-02-01'', Str [], Str ''Gadget'', Str ''5'', Str ''50'', Str ''-5''])]\<rparr>"

definition gadget_result :: result where
  "gadget_result =
     \<lparr>dropped = 0,
      table =
        \<lparr>columns = [''date'', ''year'', ''month'', ''region'', ''product'',
                    ''quantity'', ''unit_price'', ''sales'', ''profit'', ''profit_margin''],
         rows =
           [(0, [Ts (2024, 2, 1, 0), Num 2024, Num 2, Str ''Unknown'', Str ''Gadget'',
                 Num 5, Num 10, Num 50, Num (- 5), Num (- 1 / 10)])]\<rparr>\<rparr>"


section \<open>Properties of the frame operations\<close>

lemma pos_less: "c \<in> set cs \<Longrightarrow> pos cs c < length cs"
  by (induction cs) auto

lemma pos_absent: "c \<notin> set cs \<Longrightarrow> pos cs c = length cs"
  by (induction cs) auto

lemma nth_pos: "c \<in> set cs \<Longrightarrow> cs ! pos cs c = c"
  by (induction cs) auto

lemma pos_inj: "c \<in> set cs \<Longrightarrow> pos cs c = pos cs c' \<Longrightarrow> c = c'"
  by (induction cs) (auto split: if_splits)

lemma pos_append_in: "c \<in> set cs \<Longrightarrow> pos (cs @ ds) c = pos cs c"
  by (induction cs) auto

lemma pos_append_out: "c \<notin> set cs \<Longrightarrow> pos (cs @ ds) c = length cs + pos ds c"
  by (induction cs) auto

lemma cell_at_update:
  assumes "length r = length cs" "c \<in> set cs" "c' \<in> set cs"
  shows "cell_at cs c (r[pos cs c' := v]) = (if c = c' then v else cell_at cs c r)"
proof (cases "c = c'")
  case True
  then show ?thesis using assms pos_less[of c cs] by (simp add: cell_at_def)
next
  case False
  then have "pos cs c' \<noteq> pos cs c" using pos_inj[of c cs c'] assms by auto
  then show ?thesis using False by (simp add: cell_at_def Let_def)
qed

lemma cell_at_snoc:
  assumes "length r = length cs"
  shows "cell_at (cs @ [c']) c (r @ [v]) =
           (if c \<in> set cs then cell_at cs c r else if c = c' then v else NA)"
  using assms pos_less[of c cs]
  by (auto simp: cell_at_def Let_def pos_append_in pos_append_out nth_append)

lemma map2_same: "map2 f xs (map g xs) = map (\<lambda>x. f x (g x)) xs"
  by (induction xs) auto

lemma map2_maps: "map2 f (map g xs) (map h xs) = map (\<lambda>x. f (g x) (h x)) xs"
  by (induction xs) auto

lemma mask_filter: "map fst (filter snd (zip xs (map P xs))) = filter P xs"
  by (induction xs) auto

lemma getitem_mask_map: "getitem_mask df (map P (rows df)) = df\<lparr>rows := filter P (rows df)\<rparr>"
  by (simp add: getitem_mask_def mask_filter)

lemma drop_dup_rows:
  "map fst (filter snd (zip rs (map Not (duplicated seen (map snd rs))))) = first_rows (set seen) rs"
  by (induction rs arbitrary: seen) (auto simp: insert_absorb)

lemma drop_duplicates_rows: "drop_duplicates df = df\<lparr>rows := first_rows {} (rows df)\<rparr>"
  by (simp add: drop_duplicates_def getitem_mask_def drop_dup_rows)

lemma getitem_in: "c \<in> set (columns df) \<Longrightarrow>
   getitem df c = Inr (map (\<lambda>r. cell_at (columns df) c (snd r)) (rows df))"
  by (simp add: getitem_def)

lemma setitem_in:
  "c \<in> set (columns df) \<Longrightarrow>
   setitem df c (map g (rows df)) =
     df\<lparr>rows := map (\<lambda>r. (fst r, (snd r)[pos (columns df) c := g r])) (rows df)\<rparr>"
  by (simp add: setitem_def map2_same)

lemma setitem_out:
  "c \<notin> set (columns df) \<Longrightarrow>
   setitem df c (map g (rows df)) =
     \<lparr>columns = columns df @ [c], rows = map (\<lambda>r. (fst r, snd r @ [g r])) (rows df)\<rparr>"
  by (simp add: setitem_def map2_same)


lemma bind_Inr [simp]: "bind (Inr x) f = f x"
  by (simp add: bind_def)

lemma bind_Inl [simp]: "bind (Inl e) f = Inl e"
  by (simp add: bind_def)

lemma frame_eqI: "columns a = columns b \<Longrightarrow> rows a = rows b \<Longrightarrow> a = (b :: frame)"
  by simp

lemma columns_map_rows [simp]: "columns (map_rows f df) = columns df"
  by (simp add: map_rows_def)

lemma rows_map_rows [simp]: "rows (map_rows f df) = map (\<lambda>r. (fst r, f (snd r))) (rows df)"
  by (simp add: map_rows_def)

lemma map_rows_comp: "map_rows f (map_rows g df) = map_rows (f \<circ> g) df"
  by (simp add: map_rows_def comp_def)

lemma length_upd [simp]: "length (upd cs c f r) = length r"
  by (simp add: upd_def)

lemma cell_at_upd:
  "length r = length cs \<Longrightarrow> c \<in> set cs \<Longrightarrow> c' \<in> set cs \<Longrightarrow>
   cell_at cs c (upd cs c' f r) = (if c = c' then f (cell_at cs c r) else cell_at cs c r)"
  by (simp add: upd_def cell_at_update)

lemma set_column:
  "c \<in> set (columns df) \<Longrightarrow>
   bind (getitem df c) (\<lambda>s. k (setitem df c (map f s))) = k (map_rows (upd (columns df) c f) df)"
  by (simp add: getitem_in setitem_in[where g = "\<lambda>r. f (cell_at (columns df) c (snd r))"]
        map_rows_def upd_def comp_def)

lemma parse_date_eq:
  "''date'' \<in> set (columns df) \<Longrightarrow>
   parse_date p df =
     Inr (map_rows (upd (columns df) ''date'' (\<lambda>c. case p c of None \<Rightarrow> NA | Some t \<Rightarrow> Ts t)) df)"
  unfolding parse_date_def to_datetime_def by (rule set_column)

lemma coerce_numeric_eq:
  "set ls \<subseteq> set (columns df) \<Longrightarrow>
   coerce_numeric p ls df =
     Inr (map_rows (fold (\<lambda>l. upd (columns df) l (\<lambda>c. case p c of None \<Rightarrow> NA | Some x \<Rightarrow> Num x)) ls) df)"
proof (induction ls arbitrary: df)
  case Nil
  show ?case by (simp add: map_rows_def)
next
  case (Cons l ls)
  let ?f = "\<lambda>c. case p c of None \<Rightarrow> NA | Some x \<Rightarrow> Num x"
  have "coerce_numeric p (l # ls) df = coerce_numeric p ls (map_rows (upd (columns df) l ?f) df)"
    using Cons.prems set_column[of l df "coerce_numeric p ls" ?f]
    by (simp add: to_numeric_def)
  then show ?case using Cons by (simp add: map_rows_comp comp_def)
qed


lemma parse_date_cell:
  "''date'' \<in> set (columns df) \<Longrightarrow>
   parse_date p df = Inr (map_rows (upd (columns df) ''date'' (dt_cell p)) df)"
  by (simp add: parse_date_eq dt_cell_def[abs_def])

lemma coerce_eq:
  assumes "{''date'', ''sales'', ''quantity'', ''profit''} \<subseteq> set (columns df)"
  shows "coerce pd pn df = Inr (map_rows (coerce_row pd pn (columns df)) df)"
proof -
  have "coerce_numeric pn [''sales'', ''quantity'', ''profit'']
          (map_rows (upd (columns df) ''date'' (dt_cell pd)) df) =
        Inr (map_rows (fold (\<lambda>l. upd (columns df) l (num_cell pn))
               [''sales'', ''quantity'', ''profit''])
             (map_rows (upd (columns df) ''date'' (dt_cell pd)) df))"
    using assms coerce_numeric_eq[of "[''sales'', ''quantity'', ''profit'']"
        "map_rows (upd (columns df) ''date'' (dt_cell pd)) df" pn]
    by (simp add: num_cell_def[abs_def])
  then show ?thesis
    using assms by (simp add: coerce_def parse_date_cell map_rows_comp comp_def coerce_row_def)
qed

lemma clean_values_eq:
  assumes "''region'' \<in> set (columns df)"
  shows "clean_values df =
           Inr (drop_duplicates (map_rows (upd (columns df) ''region'' fill_region) df))"
proof -
  have "\<And>s. replace (Str []) (Str ''Unknown'') (fillna (Str ''Unknown'') s) = map fill_region s"
    by (simp add: replace_def fillna_def fill_region_def Let_def)
  then show ?thesis
    unfolding clean_values_def
    using set_column[OF assms, of "\<lambda>d. Inr (drop_duplicates d)" fill_region] by simp
qed

lemma dropna_eq:
  "set ls \<subseteq> set (columns df) \<Longrightarrow>
   dropna ls df =
     Inr (df\<lparr>rows := filter (\<lambda>r. list_all (\<lambda>c. cell_at (columns df) c (snd r) \<noteq> NA) ls)
                       (rows df)\<rparr>)"
proof -
  assume "set ls \<subseteq> set (columns df)"
  then have "filter (\<lambda>c. c \<notin> set (columns df)) ls = []"
    by (auto simp: filter_empty_conv)
  then show ?thesis by (simp add: dropna_def getitem_mask_map)
qed

lemma drop_bad_rows_eq:
  assumes "{''date'', ''product'', ''quantity'', ''sales'', ''profit''} \<subseteq> set (columns df)"
  shows "drop_bad_rows df =
           Inr (df\<lparr>rows := filter (positive (columns df)) (filter (no_missing (columns df)) (rows df))\<rparr>)"
proof -
  let ?d = "df\<lparr>rows := filter (no_missing (columns df)) (rows df)\<rparr>"
  have d: "dropna [''date'', ''product'', ''quantity'', ''sales'', ''profit''] df = Inr ?d"
    using assms dropna_eq[of "[''date'', ''product'', ''quantity'', ''sales'', ''profit'']" df]
    by (simp add: no_missing_def[abs_def])
  have m: "map2 (\<and>) (map gt0 (map (\<lambda>r. cell_at (columns ?d) ''quantity'' (snd r)) (rows ?d)))
             (map gt0 (map (\<lambda>r. cell_at (columns ?d) ''sales'' (snd r)) (rows ?d))) =
           map (positive (columns df)) (rows ?d)"
    by (simp add: map2_maps positive_def[abs_def] comp_def)
  have "drop_bad_rows df = Inr (getitem_mask ?d (map (positive (columns df)) (rows ?d)))"
    unfolding drop_bad_rows_def d using assms m by (simp add: getitem_in)
  then show ?thesis using getitem_mask_map[of ?d "positive (columns df)"] by simp
qed

lemma set_with_col [simp]: "set (with_col cs c) = insert c (set cs)"
  by (auto simp: with_col_def)

lemma length_put: "length r = length cs \<Longrightarrow> length (put cs c v r) = length (with_col cs c)"
  by (simp add: put_def with_col_def)

lemma cell_at_absent: "length r = length cs \<Longrightarrow> c \<notin> set cs \<Longrightarrow> cell_at cs c r = NA"
  by (simp add: cell_at_def pos_absent)

lemma cell_at_put:
  assumes "length r = length cs"
  shows "cell_at (with_col cs c) c' (put cs c v r) = (if c' = c then v else cell_at cs c' r)"
proof (cases "c \<in> set cs")
  case True
  show ?thesis
  proof (cases "c' \<in> set cs")
    case True
    with \<open>c \<in> set cs\<close> assms show ?thesis
      by (simp add: put_def with_col_def cell_at_update)
  next
    case False
    with \<open>c \<in> set cs\<close> assms show ?thesis
      by (auto simp: put_def with_col_def cell_at_absent)
  qed
next
  case False
  with assms show ?thesis
    by (auto simp: put_def with_col_def cell_at_snoc cell_at_absent)
qed

lemma setitem_put:
  "setitem df c (map g (rows df)) =
     \<lparr>columns = with_col (columns df) c,
      rows = map (\<lambda>r. (fst r, put (columns df) c (g r) (snd r))) (rows df)\<rparr>"
  by (cases "c \<in> set (columns df)") (simp_all add: setitem_in setitem_out put_def with_col_def)

lemma setitem_put_map:
  "setitem \<lparr>columns = cs, rows = map F xs\<rparr> c (map G xs) =
     \<lparr>columns = with_col cs c,
      rows = map (\<lambda>x. (fst (F x), put cs c (G x) (snd (F x)))) xs\<rparr>"
  by (cases "c \<in> set cs")
     (simp_all add: setitem_def put_def with_col_def zip_map1 zip_map2 zip_same_conv_map)

lemma add_derived_eq:
  assumes "{''date'', ''sales'', ''quantity'', ''profit''} \<subseteq> set (columns df)"
  shows "add_derived df =
           Inr \<lparr>columns = derived_cols (columns df),
                rows = map (\<lambda>r. (fst r, derive_row (columns df) (snd r))) (rows df)\<rparr>"
  using assms unfolding add_derived_def
  by (simp add: getitem_in setitem_put setitem_put_map zip_map1 zip_map2 zip_same_conv_map comp_def Let_def
        derived_cols_def derive_row_def)

lemma cell_at_upd_any:
  "length r = length cs \<Longrightarrow> c' \<in> set cs \<Longrightarrow>
   cell_at cs c (upd cs c' f r) = (if c = c' then f (cell_at cs c r) else cell_at cs c r)"
  using cell_at_put[of r cs c' c "f (cell_at cs c' r)"]
  by (simp add: upd_def put_def with_col_def)

lemma length_coerce_row [simp]: "length (coerce_row pd pn cs r) = length r"
  by (simp add: coerce_row_def)

lemma coerce_view:
  assumes "length r = length cs"
    and "{''date'', ''sales'', ''quantity'', ''profit''} \<subseteq> set cs"
  shows "cell_at cs c (coerce_row pd pn cs r) =
           (if c = ''date'' then dt_cell pd (cell_at cs c r)
            else if c \<in> {''sales'', ''quantity'', ''profit''} then num_cell pn (cell_at cs c r)
            else cell_at cs c r)"
  using assms by (simp add: coerce_row_def cell_at_upd_any)

lemma length_derive_row:
  "length r = length cs \<Longrightarrow> length (derive_row cs r) = length (derived_cols cs)"
  by (simp add: derive_row_def derived_cols_def Let_def length_put)

lemma derive_view:
  assumes "length r = length cs"
  shows "cell_at (derived_cols cs) c (derive_row cs r) =
           (if c = ''month'' then dt_month (cell_at cs ''date'' r)
            else if c = ''year'' then dt_year (cell_at cs ''date'' r)
            else if c = ''profit_margin''
              then cell_round 4 (cell_div (cell_at cs ''profit'' r) (cell_at cs ''sales'' r))
            else if c = ''unit_price''
              then cell_round 2 (cell_div (cell_at cs ''sales'' r) (cell_at cs ''quantity'' r))
            else cell_at cs c r)"
  using assms by (simp add: derive_row_def derived_cols_def Let_def length_put cell_at_put)

lemma cell_at_map:
  "c \<in> set ls \<Longrightarrow> cell_at ls c (map f ls) = f c"
  by (simp add: cell_at_def pos_less nth_pos)

lemma project_view: "c \<in> set cols \<Longrightarrow> cell_at cols c (project cs r) = cell_at cs c r"
  by (simp add: project_def cell_at_map)

lemma set_cols_derived: "set cols \<subseteq> set (derived_cols cs) \<longleftrightarrow>
    {''date'', ''region'', ''product'', ''quantity'', ''sales'', ''profit''} \<subseteq> set cs"
  by (auto simp: cols_def derived_cols_def)

lemma getitem_cols_eq:
  "set ls \<subseteq> set (columns df) \<Longrightarrow>
   getitem_cols df ls =
     Inr \<lparr>columns = ls,
          rows = map (\<lambda>r. (fst r, map (\<lambda>c. cell_at (columns df) c (snd r)) ls)) (rows df)\<rparr>"
proof -
  assume "set ls \<subseteq> set (columns df)"
  then have "filter (\<lambda>c. c \<notin> set (columns df)) ls = []"
    by (auto simp: filter_empty_conv)
  then show ?thesis by (simp add: getitem_cols_def)
qed

lemma sort_values_eq:
  assumes "set sort_cols \<subseteq> set (columns df)"
  shows "sort_values sort_cols df = Inr (df\<lparr>rows := sort_key (row_key (columns df)) (rows df)\<rparr>)"
proof -
  have "filter (\<lambda>c. c \<notin> set (columns df)) sort_cols = []"
    using assms by (auto simp: filter_empty_conv)
  moreover have "row_key (columns df) = (\<lambda>r. map (\<lambda>c. cell_key (cell_at (columns df) c (snd r))) sort_cols)"
    by (rule ext) (simp add: row_key_def)
  ultimately show ?thesis by (simp add: sort_values_def)
qed

lemma order_columns_eq:
  assumes "set cols \<subseteq> set (columns df)"
  shows "order_columns df =
           Inr \<lparr>columns = cols,
                rows = zip (map int [0 ..< length (rows df)])
                         (map snd (sort_key (row_key cols)
                            (map (\<lambda>r. (fst r, project (columns df) (snd r))) (rows df))))\<rparr>"
proof -
  let ?p = "\<lparr>columns = cols, rows = map (\<lambda>r. (fst r, project (columns df) (snd r))) (rows df)\<rparr>"
  have p: "getitem_cols df cols = Inr ?p"
    using getitem_cols_eq[OF assms] by (simp add: project_def[abs_def])
  have sc: "set sort_cols \<subseteq> set (columns ?p)"
    by (simp add: sort_cols_def cols_def)
  have s: "sort_values [''date'', ''region'', ''product''] ?p =
             Inr (?p\<lparr>rows := sort_key (row_key (columns ?p)) (rows ?p)\<rparr>)"
    using sort_values_eq[OF sc] by (simp add: sort_cols_def)
  show ?thesis
    unfolding order_columns_def p bind_Inr s
    by (simp add: reset_index_def)
qed

subsection \<open>The rows between the stages\<close>

lemma validate_ok:
  "required \<subseteq> set (std_cols df0) \<Longrightarrow> validate_columns df0 = Inr (rename std_name df0)"
  by (auto simp: validate_columns_def rename_def std_cols_def Let_def)

lemma validate_missing:
  "\<not> required \<subseteq> set (std_cols df0) \<Longrightarrow>
   validate_columns df0 = Inl (ValueError (required - set (std_cols df0)))"
  by (auto simp: validate_columns_def rename_def std_cols_def Let_def)

lemma set_first_rows: "set (first_rows S rs) \<subseteq> set rs"
  by (induction rs arbitrary: S) auto

lemma gt0_Num: "gt0 c \<Longrightarrow> \<exists>q. c = Num q \<and> 0 < q"
  by (cases c) auto

lemma fill_region_eq:
  "fill_region c = (if c = NA \<or> c = Str [] then Str ''Unknown'' else c)"
  by (simp add: fill_region_def Let_def)

lemma fill_region_not_NA: "fill_region c \<noteq> NA"
  by (simp add: fill_region_eq)

lemma dt_cell_not_NA: "dt_cell pd c \<noteq> NA \<Longrightarrow> \<exists>d. dt_cell pd c = Ts d"
  by (auto simp: dt_cell_def split: option.splits)

lemma num_cell_not_NA: "num_cell pn c \<noteq> NA \<Longrightarrow> \<exists>x. num_cell pn c = Num x"
  by (auto simp: num_cell_def split: option.splits)

lemma required_mem:
  "required \<subseteq> set cs \<Longrightarrow>
   ''date'' \<in> set cs \<and> ''region'' \<in> set cs \<and> ''product'' \<in> set cs \<and>
   ''sales'' \<in> set cs \<and> ''quantity'' \<in> set cs \<and> ''profit'' \<in> set cs"
  by (simp add: required_def)

lemma prepared_view:
  assumes "len_ok df0" "required \<subseteq> set (std_cols df0)" "r \<in> set (prepared_rows pd pn df0)"
  shows "length (snd r) = length (std_cols df0) \<and>
         (\<exists>r0 \<in> set (rows df0). fst r = fst r0 \<and>
            (\<forall>c. cell_at (std_cols df0) c (snd r) =
               (if c = ''region'' then fill_region (cell_at (std_cols df0) c (snd r0))
                else if c = ''date'' then dt_cell pd (cell_at (std_cols df0) c (snd r0))
                else if c \<in> {''sales'', ''quantity'', ''profit''}
                  then num_cell pn (cell_at (std_cols df0) c (snd r0))
                else cell_at (std_cols df0) c (snd r0))))"
proof -
  let ?cs = "std_cols df0"
  from assms(3) obtain r0 where r0: "r0 \<in> set (rows df0)"
    and r: "r = (fst r0, upd ?cs ''region'' fill_region (coerce_row pd pn ?cs (snd r0)))"
    by (auto simp: prepared_rows_def)
  have len: "length (snd r0) = length ?cs"
    using assms(1) r0 by (simp add: len_ok_def std_cols_def)
  have m: "''region'' \<in> set ?cs" "{''date'', ''sales'', ''quantity'', ''profit''} \<subseteq> set ?cs"
    using required_mem[OF assms(2)] by simp_all
  have "\<forall>c. cell_at ?cs c (snd r) =
               (if c = ''region'' then fill_region (cell_at ?cs c (snd r0))
                else if c = ''date'' then dt_cell pd (cell_at ?cs c (snd r0))
                else if c \<in> {''sales'', ''quantity'', ''profit''}
                  then num_cell pn (cell_at ?cs c (snd r0))
                else cell_at ?cs c (snd r0))"
    using len m by (simp add: r cell_at_upd_any coerce_view)
  then show ?thesis using r0 len r by auto
qed

lemma kept_prepared:
  "r \<in> set (kept_rows pd pn df0) \<Longrightarrow>
   r \<in> set (prepared_rows pd pn df0) \<and> no_missing (std_cols df0) r \<and> positive (std_cols df0) r"
  using set_first_rows[of "{}" "prepared_rows pd pn df0"]
  by (auto simp: kept_rows_def deduped_rows_def)

lemma kept_facts:
  assumes "len_ok df0" "required \<subseteq> set (std_cols df0)" "r \<in> set (kept_rows pd pn df0)"
  shows "length (snd r) = length (std_cols df0) \<and>
         cell_at (std_cols df0) ''region'' (snd r) \<noteq> NA \<and>
         cell_at (std_cols df0) ''product'' (snd r) \<noteq> NA \<and>
         (\<exists>d q s pr.
            cell_at (std_cols df0) ''date'' (snd r) = Ts d \<and>
            cell_at (std_cols df0) ''quantity'' (snd r) = Num q \<and>
            cell_at (std_cols df0) ''sales'' (snd r) = Num s \<and>
            cell_at (std_cols df0) ''profit'' (snd r) = Num pr \<and> 0 < q \<and> 0 < s)"
proof -
  let ?cs = "std_cols df0"
  have k: "no_missing ?cs r" "positive ?cs r" and p: "r \<in> set (prepared_rows pd pn df0)"
    using kept_prepared[OF assms(3)] by simp_all
  from prepared_view[OF assms(1,2) p] obtain r0 where
    len: "length (snd r) = length ?cs" and r0: "r0 \<in> set (rows df0)" and
    v: "\<And>c. cell_at ?cs c (snd r) =
               (if c = ''region'' then fill_region (cell_at ?cs c (snd r0))
                else if c = ''date'' then dt_cell pd (cell_at ?cs c (snd r0))
                else if c \<in> {''sales'', ''quantity'', ''profit''}
                  then num_cell pn (cell_at ?cs c (snd r0))
                else cell_at ?cs c (snd r0))"
    by blast
  have g: "cell_at ?cs ''region'' (snd r) \<noteq> NA"
    using v[of "''region''"] fill_region_not_NA by simp
  have pc: "cell_at ?cs ''product'' (snd r) \<noteq> NA" using k(1) by (simp add: no_missing_def)
  have "cell_at ?cs ''date'' (snd r) \<noteq> NA" using k(1) by (simp add: no_missing_def)
  moreover have "cell_at ?cs ''date'' (snd r) = dt_cell pd (cell_at ?cs ''date'' (snd r0))"
    using v[of "''date''"] by simp
  ultimately obtain d where d: "cell_at ?cs ''date'' (snd r) = Ts d"
    using dt_cell_not_NA[of pd "cell_at ?cs ''date'' (snd r0)"] by metis
  have "cell_at ?cs ''profit'' (snd r) \<noteq> NA" using k(1) by (simp add: no_missing_def)
  moreover have "cell_at ?cs ''profit'' (snd r) = num_cell pn (cell_at ?cs ''profit'' (snd r0))"
    using v[of "''profit''"] by simp
  ultimately obtain pr where pr: "cell_at ?cs ''profit'' (snd r) = Num pr"
    using num_cell_not_NA[of pn "cell_at ?cs ''profit'' (snd r0)"] by metis
  obtain q where q: "cell_at ?cs ''quantity'' (snd r) = Num q" "0 < q"
    using gt0_Num k(2) by (auto simp: positive_def)
  obtain s where s: "cell_at ?cs ''sales'' (snd r) = Num s" "0 < s"
    using gt0_Num k(2) by (auto simp: positive_def)
  show ?thesis using len g pc d pr q s by blast
qed

lemma sanitize_eq:
  assumes "required \<subseteq> set (std_cols df0)"
  shows "bind (coerce pd pn (rename std_name df0)) clean_values =
           Inr \<lparr>columns = std_cols df0, rows = deduped_rows pd pn df0\<rparr>"
proof -
  let ?cs = "std_cols df0"
  let ?d0 = "rename std_name df0"
  have c0: "columns ?d0 = ?cs" "rows ?d0 = rows df0"
    by (simp_all add: rename_def std_cols_def)
  have m: "{''date'', ''sales'', ''quantity'', ''profit''} \<subseteq> set (columns ?d0)"
    "''region'' \<in> set (columns ?d0)"
    using required_mem[OF assms] c0 by simp_all
  have 1: "coerce pd pn ?d0 = Inr (map_rows (coerce_row pd pn ?cs) ?d0)"
    using coerce_eq[OF m(1)] c0 by simp
  have 2: "clean_values (map_rows (coerce_row pd pn ?cs) ?d0) =
             Inr (drop_duplicates (map_rows (upd ?cs ''region'' fill_region)
                    (map_rows (coerce_row pd pn ?cs) ?d0)))"
    using clean_values_eq[of "map_rows (coerce_row pd pn ?cs) ?d0"] m(2) c0 by simp
  have 3: "drop_duplicates (map_rows (upd ?cs ''region'' fill_region)
                    (map_rows (coerce_row pd pn ?cs) ?d0)) =
           \<lparr>columns = ?cs, rows = deduped_rows pd pn df0\<rparr>"
    by (simp add: drop_duplicates_rows c0 deduped_rows_def prepared_rows_def comp_def)
  show ?thesis by (simp add: 1 2 3)
qed

lemma transform_unfold:
  "transform pd pn df0 =
     bind (bind (bind (validate_columns df0) (coerce pd pn)) clean_values) (\<lambda>df.
       let before = length (rows df) in
       bind (drop_bad_rows df) (\<lambda>df.
       let after = length (rows df) in
       bind (add_derived df) (\<lambda>df.
       bind (order_columns df) (\<lambda>df.
         Inr \<lparr>dropped = int before - int after, table = df\<rparr>))))"
  by (simp add: transform_def bind_def split: sum.splits)

lemma stages:
  assumes "required \<subseteq> set (std_cols df0)"
  shows "bind (bind (validate_columns df0) (coerce pd pn)) clean_values =
           Inr \<lparr>columns = std_cols df0, rows = deduped_rows pd pn df0\<rparr>"
    and "drop_bad_rows \<lparr>columns = std_cols df0, rows = deduped_rows pd pn df0\<rparr> =
           Inr \<lparr>columns = std_cols df0, rows = kept_rows pd pn df0\<rparr>"
    and "add_derived \<lparr>columns = std_cols df0, rows = kept_rows pd pn df0\<rparr> =
           Inr \<lparr>columns = derived_cols (std_cols df0),
                rows = map (\<lambda>r. (fst r, derive_row (std_cols df0) (snd r)))
                         (kept_rows pd pn df0)\<rparr>"
    and "order_columns \<lparr>columns = derived_cols (std_cols df0),
                rows = map (\<lambda>r. (fst r, derive_row (std_cols df0) (snd r)))
                         (kept_rows pd pn df0)\<rparr> =
           Inr \<lparr>columns = cols,
                rows = zip (map int [0 ..< length (kept_rows pd pn df0)])
                         (map snd (sort_key (row_key cols)
                            (map (out_row (std_cols df0)) (kept_rows pd pn df0))))\<rparr>"
proof -
  let ?cs = "std_cols df0"
  let ?A = "\<lparr>columns = ?cs, rows = deduped_rows pd pn df0\<rparr>"
  let ?B = "\<lparr>columns = ?cs, rows = kept_rows pd pn df0\<rparr>"
  let ?C = "\<lparr>columns = derived_cols ?cs,
             rows = map (\<lambda>r. (fst r, derive_row ?cs (snd r))) (kept_rows pd pn df0)\<rparr>"
  note m = required_mem[OF assms]
  show "bind (bind (validate_columns df0) (coerce pd pn)) clean_values = Inr ?A"
    using sanitize_eq[OF assms, of pd pn] by (simp add: validate_ok[OF assms])
  show "drop_bad_rows ?A = Inr ?B"
    using drop_bad_rows_eq[of ?A] m by (simp add: kept_rows_def)
  show "add_derived ?B = Inr ?C"
    using add_derived_eq[of ?B] m by simp
  have sub: "set cols \<subseteq> set (columns ?C)"
    using m by (simp add: set_cols_derived)
  show "order_columns ?C =
            Inr \<lparr>columns = cols,
                 rows = zip (map int [0 ..< length (kept_rows pd pn df0)])
                          (map snd (sort_key (row_key cols)
                             (map (out_row ?cs) (kept_rows pd pn df0))))\<rparr>"
    using order_columns_eq[OF sub] by (simp add: out_row_def[abs_def] comp_def)
qed

lemma transform_eq:
  assumes "required \<subseteq> set (std_cols df0)"
  shows "transform pd pn df0 =
           Inr \<lparr>dropped = int (length (deduped_rows pd pn df0)) - int (length (kept_rows pd pn df0)),
                table = \<lparr>columns = cols,
                         rows = zip (map int [0 ..< length (kept_rows pd pn df0)])
                                  (map snd (sort_key (row_key cols)
                                     (map (out_row (std_cols df0)) (kept_rows pd pn df0))))\<rparr>\<rparr>"
proof -
  let ?A = "\<lparr>columns = std_cols df0, rows = deduped_rows pd pn df0\<rparr>"
  let ?B = "\<lparr>columns = std_cols df0, rows = kept_rows pd pn df0\<rparr>"
  note st = stages[OF assms, of pd pn]
  have "transform pd pn df0 =
      Inr \<lparr>dropped = int (length (rows ?A)) - int (length (rows ?B)),
           table = \<lparr>columns = cols,
                    rows = zip (map int [0 ..< length (kept_rows pd pn df0)])
                             (map snd (sort_key (row_key cols)
                                (map (out_row (std_cols df0)) (kept_rows pd pn df0))))\<rparr>\<rparr>"
    unfolding transform_unfold st(1) bind_Inr Let_def st(2) st(3) st(4) ..
  then show ?thesis by simp
qed

lemma transform_Inr_required:
  "transform pd pn df = Inr res \<Longrightarrow> required \<subseteq> set (std_cols df)"
  by (rule ccontr) (simp add: transform_def validate_missing)

lemma table_columns:
  assumes "transform pd pn df0 = Inr res"
  shows "columns (table res) = cols"
  using transform_eq[OF transform_Inr_required[OF assms], of pd pn] assms by auto

lemma table_rows_eq:
  assumes "transform pd pn df0 = Inr res"
  shows "rows (table res) =
           zip (map int [0 ..< length (kept_rows pd pn df0)])
             (map snd (sort_key (row_key cols)
                (map (out_row (std_cols df0)) (kept_rows pd pn df0))))"
  using transform_eq[OF transform_Inr_required[OF assms], of pd pn] assms by auto

lemma dropped_eq:
  assumes "transform pd pn df0 = Inr res"
  shows "dropped res = int (length (deduped_rows pd pn df0)) - int (length (kept_rows pd pn df0))"
  using transform_eq[OF transform_Inr_required[OF assms], of pd pn] assms by auto

lemma out_row_cells:
  assumes "length (snd r) = length cs"
  shows "snd (out_row cs r) =
           [cell_at cs ''date'' (snd r), dt_year (cell_at cs ''date'' (snd r)),
            dt_month (cell_at cs ''date'' (snd r)), cell_at cs ''region'' (snd r),
            cell_at cs ''product'' (snd r), cell_at cs ''quantity'' (snd r),
            cell_round 2 (cell_div (cell_at cs ''sales'' (snd r)) (cell_at cs ''quantity'' (snd r))),
            cell_at cs ''sales'' (snd r), cell_at cs ''profit'' (snd r),
            cell_round 4 (cell_div (cell_at cs ''profit'' (snd r)) (cell_at cs ''sales'' (snd r)))]"
  using assms by (simp add: out_row_def project_def cols_def derive_view)

lemma out_row_shape:
  assumes "len_ok df0" "required \<subseteq> set (std_cols df0)" "r \<in> set (kept_rows pd pn df0)"
  shows "\<exists>d g p q s pr. 0 < q \<and> 0 < s \<and> g \<noteq> NA \<and> p \<noteq> NA \<and>
           g = cell_at (std_cols df0) ''region'' (snd r) \<and>
           p = cell_at (std_cols df0) ''product'' (snd r) \<and>
           snd (out_row (std_cols df0) r) =
             [Ts d, Num (of_int (ts_year d)), Num (of_nat (ts_month d)), g, p, Num q,
              Num (round_dec 2 (s / q)), Num s, Num pr, Num (round_dec 4 (pr / s))]"
proof -
  from kept_facts[OF assms] obtain d q s pr where
    len: "length (snd r) = length (std_cols df0)" and
    n: "cell_at (std_cols df0) ''region'' (snd r) \<noteq> NA"
       "cell_at (std_cols df0) ''product'' (snd r) \<noteq> NA" and
    f: "cell_at (std_cols df0) ''date'' (snd r) = Ts d"
       "cell_at (std_cols df0) ''quantity'' (snd r) = Num q"
       "cell_at (std_cols df0) ''sales'' (snd r) = Num s"
       "cell_at (std_cols df0) ''profit'' (snd r) = Num pr" and
    pos: "0 < q" "0 < s"
    by blast
  have "snd (out_row (std_cols df0) r) =
             [Ts d, Num (of_int (ts_year d)), Num (of_nat (ts_month d)),
              cell_at (std_cols df0) ''region'' (snd r),
              cell_at (std_cols df0) ''product'' (snd r), Num q,
              Num (round_dec 2 (s / q)), Num s, Num pr, Num (round_dec 4 (pr / s))]"
    using f pos by (simp add: out_row_cells[OF len])
  then show ?thesis using pos n by blast
qed

lemma table_row_source:
  assumes "transform pd pn df0 = Inr res" "r \<in> set (rows (table res))"
  shows "\<exists>k \<in> set (kept_rows pd pn df0). snd r = snd (out_row (std_cols df0) k)"
proof -
  have "r \<in> set (zip (map int [0 ..< length (kept_rows pd pn df0)])
                   (map snd (sort_key (row_key cols)
                      (map (out_row (std_cols df0)) (kept_rows pd pn df0)))))"
    using assms(2) unfolding table_rows_eq[OF assms(1)] .
  then have "snd r \<in> set (map snd (sort_key (row_key cols)
                      (map (out_row (std_cols df0)) (kept_rows pd pn df0))))"
    by (metis prod.collapse set_zip_rightD)
  then show ?thesis by auto
qed

lemma table_row_shape:
  assumes "len_ok df" and "transform pd pn df = Inr res" and "r \<in> set (rows (table res))"
  shows "\<exists>d g p q s pr. 0 < q \<and> 0 < s \<and> g \<noteq> NA \<and> p \<noteq> NA \<and>
           snd r = [Ts d, Num (of_int (ts_year d)), Num (of_nat (ts_month d)), g, p,
                    Num q, Num (round_dec 2 (s / q)), Num s, Num pr, Num (round_dec 4 (pr / s))]"
proof -
  from table_row_source[OF assms(2,3)] obtain k where
    k: "k \<in> set (kept_rows pd pn df)" and r: "snd r = snd (out_row (std_cols df) k)"
    by blast
  from out_row_shape[OF assms(1) transform_Inr_required[OF assms(2)] k] r
  show ?thesis by metis
qed

lemma first_rows_set: "snd ` set (first_rows S rs) = snd ` set rs - S"
  by (induction rs arbitrary: S) auto

lemma first_rows_distinct: "distinct (map snd (first_rows S rs))"
proof (induction rs arbitrary: S)
  case Nil
  show ?case by simp
next
  case (Cons r rs)
  have "snd r \<notin> snd ` set (first_rows (insert (snd r) S) rs)"
    unfolding first_rows_set by simp
  then show ?case using Cons by simp
qed

lemma length_first_rows: "length (first_rows S rs) \<le> length rs"
  by (induction rs arbitrary: S) (auto simp: le_SucI)

lemma filter_zip_snd:
  "length is = length ys \<Longrightarrow>
   map snd (filter (\<lambda>r. P (snd r)) (zip is ys)) = filter P ys"
  by (induction "is" ys rule: list_induct2) auto

subsection \<open>Order of the output rows\<close>




lemma row_key_snd: "row_key cs r = row_key cs (i, snd r)"
  by (simp add: row_key_def)



subsection \<open>Where an output row comes from\<close>

lemma table_row_origin:
  assumes "len_ok df" "transform pd pn df = Inr res" "r \<in> set (rows (table res))"
  shows "\<exists>r0 \<in> set (rows df).
           cell_at cols ''region'' (snd r) = fill_region (cell_at (std_cols df) ''region'' (snd r0)) \<and>
           cell_at cols ''product'' (snd r) = cell_at (std_cols df) ''product'' (snd r0) \<and>
           cell_at cols ''date'' (snd r) = dt_cell pd (cell_at (std_cols df) ''date'' (snd r0)) \<and>
           cell_at cols ''quantity'' (snd r) = num_cell pn (cell_at (std_cols df) ''quantity'' (snd r0)) \<and>
           cell_at cols ''sales'' (snd r) = num_cell pn (cell_at (std_cols df) ''sales'' (snd r0)) \<and>
           cell_at cols ''profit'' (snd r) = num_cell pn (cell_at (std_cols df) ''profit'' (snd r0))"
proof -
  let ?cs = "std_cols df"
  note req = transform_Inr_required[OF assms(2)]
  from table_row_source[OF assms(2,3)] obtain k where
    k: "k \<in> set (kept_rows pd pn df)" and r: "snd r = snd (out_row ?cs k)"
    by blast
  have p: "k \<in> set (prepared_rows pd pn df)" using kept_prepared[OF k] by simp
  from prepared_view[OF assms(1) req p] obtain r0 where
    len: "length (snd k) = length ?cs" and r0: "r0 \<in> set (rows df)" and
    v: "\<And>c. cell_at ?cs c (snd k) =
               (if c = ''region'' then fill_region (cell_at ?cs c (snd r0))
                else if c = ''date'' then dt_cell pd (cell_at ?cs c (snd r0))
                else if c \<in> {''sales'', ''quantity'', ''profit''}
                  then num_cell pn (cell_at ?cs c (snd r0))
                else cell_at ?cs c (snd r0))"
    by blast
  have "cell_at cols ''region'' (snd r) = cell_at ?cs ''region'' (snd k)"
    "cell_at cols ''product'' (snd r) = cell_at ?cs ''product'' (snd k)"
    "cell_at cols ''date'' (snd r) = cell_at ?cs ''date'' (snd k)"
    "cell_at cols ''quantity'' (snd r) = cell_at ?cs ''quantity'' (snd k)"
    "cell_at cols ''sales'' (snd r) = cell_at ?cs ''sales'' (snd k)"
    "cell_at cols ''profit'' (snd r) = cell_at ?cs ''profit'' (snd k)"
    unfolding r out_row_cells[OF len] by (simp_all add: cell_at_def cols_def)
  then have "cell_at cols ''region'' (snd r) = fill_region (cell_at ?cs ''region'' (snd r0)) \<and>
           cell_at cols ''product'' (snd r) = cell_at ?cs ''product'' (snd r0) \<and>
           cell_at cols ''date'' (snd r) = dt_cell pd (cell_at ?cs ''date'' (snd r0)) \<and>
           cell_at cols ''quantity'' (snd r) = num_cell pn (cell_at ?cs ''quantity'' (snd r0)) \<and>
           cell_at cols ''sales'' (snd r) = num_cell pn (cell_at ?cs ''sales'' (snd r0)) \<and>
           cell_at cols ''profit'' (snd r) = num_cell pn (cell_at ?cs ''profit'' (snd r0))"
    by (simp add: v)
  then show ?thesis using r0 by blast
qed

lemma fill_series:
  "replace (Str []) (Str ''Unknown'') (fillna (Str ''Unknown'') s) =
     map (\<lambda>c. if c = NA \<or> c = Str [] then Str ''Unknown'' else c) s"
  by (simp add: replace_def fillna_def)

subsection \<open>The sanitizer and its specification\<close>

lemma first_rows_keep_first:
  "first_rows S rs = keep_first (filter (\<lambda>r. snd r \<notin> S) rs)"
proof (induction rs arbitrary: S)
  case Nil
  show ?case by simp
next
  case (Cons r rs)
  have "filter (\<lambda>x. snd x \<noteq> snd r) (filter (\<lambda>r. snd r \<notin> S) rs) =
        filter (\<lambda>x. snd x \<notin> insert (snd r) S) rs"
    by (simp add: conj_commute)
  then show ?case using Cons by simp
qed

lemma upd_fill_region:
  assumes "length r = length cs" "''region'' \<in> set cs"
  shows "upd cs ''region'' fill_region r =
           (if cell_at cs ''region'' r = NA \<or> cell_at cs ''region'' r = Str []
            then r[pos cs ''region'' := Str ''Unknown''] else r)"
proof -
  have "pos cs ''region'' < length r" using assms pos_less by simp
  then have "cell_at cs ''region'' r = r ! pos cs ''region''" by (simp add: cell_at_def)
  then show ?thesis by (simp add: upd_def fill_region_eq)
qed

lemma gt0_le0: "c = NA \<or> (\<exists>x. c = Num x) \<Longrightarrow> c \<noteq> NA \<Longrightarrow> gt0 c = (\<not> le0 c)"
  by auto

lemma spec_step1_eq:
  assumes "len_ok df" "required \<subseteq> set (std_cols df)"
  shows "spec_step1 (map_rows (coerce_row pd pn (std_cols df)) (rename std_name df)) =
           \<lparr>columns = std_cols df, rows = prepared_rows pd pn df\<rparr>"
proof -
  let ?cs = "std_cols df"
  let ?c = "map_rows (coerce_row pd pn ?cs) (rename std_name df)"
  have c: "columns ?c = ?cs" by (simp add: rename_def std_cols_def)
  have r: "rows ?c = map (\<lambda>r. (fst r, coerce_row pd pn ?cs (snd r))) (rows df)"
    by (simp add: rename_def)
  have reg: "''region'' \<in> set ?cs" using required_mem[OF assms(2)] by simp
  have m: "map (\<lambda>r. if cell_at ?cs ''region'' (snd r) = NA \<or> cell_at ?cs ''region'' (snd r) = Str []
                   then (fst r, (snd r)[pos ?cs ''region'' := Str ''Unknown''])
                   else r) (rows ?c) = prepared_rows pd pn df"
    unfolding r prepared_rows_def map_map
  proof (rule map_cong[OF refl])
    fix x assume "x \<in> set (rows df)"
    then have len: "length (coerce_row pd pn ?cs (snd x)) = length ?cs"
      using assms(1) by (simp add: len_ok_def std_cols_def)
    show "((\<lambda>r. if cell_at ?cs ''region'' (snd r) = NA \<or> cell_at ?cs ''region'' (snd r) = Str []
                   then (fst r, (snd r)[pos ?cs ''region'' := Str ''Unknown''])
                   else r) \<circ> (\<lambda>r. (fst r, coerce_row pd pn ?cs (snd r)))) x =
          (fst x, upd ?cs ''region'' fill_region (coerce_row pd pn ?cs (snd x)))"
      by (simp add: upd_fill_region[OF len reg])
  qed
  have "rows (spec_step1 ?c) =
          map (\<lambda>r. if cell_at (columns ?c) ''region'' (snd r) = NA \<or>
                      cell_at (columns ?c) ''region'' (snd r) = Str []
                   then (fst r, (snd r)[pos (columns ?c) ''region'' := Str ''Unknown''])
                   else r) (rows ?c)"
    unfolding spec_step1_def by simp
  then have rs: "rows (spec_step1 ?c) = prepared_rows pd pn df"
    unfolding c m .
  have cs: "columns (spec_step1 ?c) = ?cs"
    unfolding spec_step1_def using c by simp
  show ?thesis by (rule frame_eqI) (simp_all add: rs cs)
qed

lemma spec_sanitize_eq:
  assumes "len_ok df" "required \<subseteq> set (std_cols df)"
  shows "spec_sanitize (map_rows (coerce_row pd pn (std_cols df)) (rename std_name df)) =
           \<lparr>columns = std_cols df, rows = kept_rows pd pn df\<rparr>"
proof -
  let ?cs = "std_cols df"
  have 2: "spec_step2 \<lparr>columns = ?cs, rows = prepared_rows pd pn df\<rparr> =
           \<lparr>columns = ?cs, rows = deduped_rows pd pn df\<rparr>"
    by (simp add: spec_step2_def deduped_rows_def first_rows_keep_first)
  have nm: "(\<lambda>r. \<not> list_ex (\<lambda>c. cell_at ?cs c (snd r) = NA)
                          [''date'', ''product'', ''quantity'', ''sales'', ''profit'']) =
            no_missing ?cs"
    by (rule ext) (simp add: no_missing_def)
  have 3: "spec_step3 \<lparr>columns = ?cs, rows = deduped_rows pd pn df\<rparr> =
           \<lparr>columns = ?cs, rows = filter (no_missing ?cs) (deduped_rows pd pn df)\<rparr>"
    unfolding spec_step3_def by (simp only: frame.simps nm)
  have "filter (\<lambda>r. \<not> (le0 (cell_at ?cs ''quantity'' (snd r)) \<or>
                        le0 (cell_at ?cs ''sales'' (snd r))))
            (filter (no_missing ?cs) (deduped_rows pd pn df)) = kept_rows pd pn df"
    unfolding kept_rows_def
  proof (rule filter_cong[OF refl])
    fix r assume "r \<in> set (filter (no_missing ?cs) (deduped_rows pd pn df))"
    then have n: "no_missing ?cs r" and "r \<in> set (deduped_rows pd pn df)" by simp_all
    then have p: "r \<in> set (prepared_rows pd pn df)"
      using set_first_rows[of "{}" "prepared_rows pd pn df"] by (auto simp: deduped_rows_def)
    from prepared_view[OF assms p] obtain r0 where
      "length (snd r) = length ?cs" and "r0 \<in> set (rows df)" and
      v: "\<And>c. cell_at ?cs c (snd r) =
               (if c = ''region'' then fill_region (cell_at ?cs c (snd r0))
                else if c = ''date'' then dt_cell pd (cell_at ?cs c (snd r0))
                else if c \<in> {''sales'', ''quantity'', ''profit''}
                  then num_cell pn (cell_at ?cs c (snd r0))
                else cell_at ?cs c (snd r0))"
      by blast
    have nq: "cell_at ?cs ''quantity'' (snd r) \<noteq> NA" "cell_at ?cs ''sales'' (snd r) \<noteq> NA"
      using n by (simp_all add: no_missing_def)
    have "cell_at ?cs ''quantity'' (snd r) = num_cell pn (cell_at ?cs ''quantity'' (snd r0))"
      "cell_at ?cs ''sales'' (snd r) = num_cell pn (cell_at ?cs ''sales'' (snd r0))"
      using v by simp_all
    with nq obtain q s where "cell_at ?cs ''quantity'' (snd r) = Num q"
      "cell_at ?cs ''sales'' (snd r) = Num s"
      using num_cell_not_NA by metis
    then show "(\<not> (le0 (cell_at ?cs ''quantity'' (snd r)) \<or> le0 (cell_at ?cs ''sales'' (snd r)))) =
               positive ?cs r"
      by (auto simp: positive_def)
  qed
  then have 4: "spec_step4 \<lparr>columns = ?cs, rows = filter (no_missing ?cs) (deduped_rows pd pn df)\<rparr> =
           \<lparr>columns = ?cs, rows = kept_rows pd pn df\<rparr>"
    by (simp add: spec_step4_def)
  show ?thesis
    unfolding spec_sanitize_def spec_step1_eq[OF assms] 2 3 4 ..
qed

lemma sanitizer_refines:
  assumes "len_ok df" "required \<subseteq> set (std_cols df)"
  shows "bind (validate_columns df) (coerce pd pn) =
           Inr (map_rows (coerce_row pd pn (std_cols df)) (rename std_name df))"
    and "bind (clean_values (map_rows (coerce_row pd pn (std_cols df)) (rename std_name df)))
           drop_bad_rows =
         Inr (spec_sanitize (map_rows (coerce_row pd pn (std_cols df)) (rename std_name df)))"
proof -
  let ?c = "map_rows (coerce_row pd pn (std_cols df)) (rename std_name df)"
  have "{''date'', ''sales'', ''quantity'', ''profit''} \<subseteq> set (columns (rename std_name df))"
    using required_mem[OF assms(2)] by (simp add: rename_def std_cols_def)
  from coerce_eq[OF this, of pd pn]
  show 1: "bind (validate_columns df) (coerce pd pn) = Inr ?c"
    by (simp add: validate_ok[OF assms(2)] rename_def std_cols_def)
  note st = stages[OF assms(2), of pd pn]
  have "clean_values ?c = Inr \<lparr>columns = std_cols df, rows = deduped_rows pd pn df\<rparr>"
    using st(1) unfolding 1 by simp
  then show "bind (clean_values ?c) drop_bad_rows = Inr (spec_sanitize ?c)"
    by (simp add: st(2) spec_sanitize_eq[OF assms])
qed

subsection \<open>The report\<close>






subsection \<open>The example run\<close>

lemma sales_len: "len_ok sales_frame"
  by code_simp

lemma sales_run: "transform parse_iso parse_dec sales_frame = Inr sales_result"
  by code_simp

lemma twin_run: "transform parse_iso parse_dec twin_frame = Inr twin_result"
  by code_simp

lemma gadget_run: "transform parse_iso parse_dec gadget_frame = Inr gadget_result"
  by code_simp

lemma gadget_sanitized:
  "bind (bind (bind (validate_columns gadget_frame) (coerce parse_iso parse_dec)) clean_values)
     drop_bad_rows =
   Inr \<lparr>columns = [''date'', ''region'', ''product'', ''quantity'', ''sales'', ''profit''],
        rows = [(0, [Ts (2024, 2, 1, 0), Str ''Unknown'', Str ''Gadget'', Num 5, Num 50,
                     Num (- 5)])]\<rparr>"
  by code_simp

lemma sales_required: "required \<subseteq> set (map std_name (columns sales_frame))"
  by code_simp




section \<open>The claims\<close>

text \<open>
  Claim C1. For every input frame on which \<open>transform\<close> returns a table, every row of
  the table has a timestamp as date, a product that is not the missing marker, and numbers
  as quantity, sales and profit (so none of the five is missing), and its quantity and its
  sales are positive.
\<close>

theorem persisted_rows_valid:
  assumes "len_ok df" and "transform pd pn df = Inr res" and "r \<in> set (rows (table res))"
  shows "\<exists>d q s pr.
           cell_at (columns (table res)) ''date'' (snd r) = Ts d \<and>
           cell_at (columns (table res)) ''product'' (snd r) \<noteq> NA \<and>
           cell_at (columns (table res)) ''quantity'' (snd r) = Num q \<and>
           cell_at (columns (table res)) ''sales'' (snd r) = Num s \<and>
           cell_at (columns (table res)) ''profit'' (snd r) = Num pr \<and>
           0 < q \<and> 0 < s"
proof -
  from table_row_shape[OF assms] obtain d g p q s pr where pos: "0 < q" "0 < s" "p \<noteq> NA" and
    sh: "snd r = [Ts d, Num (of_int (ts_year d)), Num (of_nat (ts_month d)), g, p,
                  Num q, Num (round_dec 2 (s / q)), Num s, Num pr, Num (round_dec 4 (pr / s))]"
    by blast
  have "cell_at cols ''date'' (snd r) = Ts d" "cell_at cols ''product'' (snd r) = p"
    "cell_at cols ''quantity'' (snd r) = Num q" "cell_at cols ''sales'' (snd r) = Num s"
    "cell_at cols ''profit'' (snd r) = Num pr"
    by (simp_all add: sh cell_at_def cols_def)
  then show ?thesis
    using pos table_columns[OF assms(2)] by metis
qed

theorem persisted_rows_valid_witness:
  "len_ok sales_frame \<and> transform parse_iso parse_dec sales_frame = Inr sales_result \<and>
   (2, [Ts (2024, 2, 1, 0), Num 2024, Num 2, Str ''Unknown'', Str ''Gadget'',
        Num 5, Num 10, Num 50, Num (- 5), Num (- 1 / 10)]) \<in> set (rows (table sales_result)) \<and>
   cell_at (columns (table sales_result)) ''quantity''
     [Ts (2024, 2, 1, 0), Num 2024, Num 2, Str ''Unknown'', Str ''Gadget'',
        Num 5, Num 10, Num 50, Num (- 5), Num (- 1 / 10)] = Num 5 \<and> (0 :: rat) < 5"
proof -
  let ?r = "(2::int, [Ts (2024, 2, 1, 0), Num 2024, Num 2, Str ''Unknown'', Str ''Gadget'',
        Num 5, Num 10, Num 50, Num (- 5), Num (- 1 / 10)])"
  have h3: "?r \<in> set (rows (table sales_result))" by (simp add: sales_result_def)
  from persisted_rows_valid[OF sales_len sales_run h3] obtain q where
    q: "cell_at (columns (table sales_result)) ''quantity'' (snd ?r) = Num q" "0 < q"
    by blast
  moreover have "cell_at (columns (table sales_result)) ''quantity'' (snd ?r) = Num 5"
    by (simp add: sales_result_def cell_at_def)
  ultimately show ?thesis using sales_len sales_run h3 by simp
qed





text \<open>
  Claim C7. Whenever \<open>transform\<close> returns a table, the frame that reaches the derivation
  step (the result of validation, coercion, cleaning and the row filter, from which
  \<open>add_derived\<close> and \<open>order_columns\<close> compute the table) has a positive number as
  quantity and as sales in every row: both divisions have a nonzero divisor and never take
  the division-by-zero branch of \<open>cell_div\<close>.
\<close>

theorem no_zero_divisor:
  assumes "len_ok df" and "transform pd pn df = Inr res"
  shows "\<exists>d. bind (bind (bind (validate_columns df) (coerce pd pn)) clean_values) drop_bad_rows
               = Inr d \<and>
             bind (add_derived d) order_columns = Inr (table res) \<and>
             (\<forall>r \<in> set (rows d).
                \<exists>q s pr. cell_at (columns d) ''quantity'' (snd r) = Num q \<and>
                  cell_at (columns d) ''sales'' (snd r) = Num s \<and>
                  cell_at (columns d) ''profit'' (snd r) = Num pr \<and>
                  0 < q \<and> 0 < s \<and> q \<noteq> 0 \<and> s \<noteq> 0 \<and>
                  cell_div (Num s) (Num q) = Num (s / q) \<and>
                  cell_div (Num pr) (Num s) = Num (pr / s))"
proof -
  let ?B = "\<lparr>columns = std_cols df, rows = kept_rows pd pn df\<rparr>"
  note req = transform_Inr_required[OF assms(2)]
  note st = stages[OF req, of pd pn]
  have 1: "bind (bind (bind (validate_columns df) (coerce pd pn)) clean_values) drop_bad_rows
             = Inr ?B"
    by (simp add: st(1) st(2))
  have "table res = \<lparr>columns = cols,
                rows = zip (map int [0 ..< length (kept_rows pd pn df)])
                         (map snd (sort_key (row_key cols)
                            (map (out_row (std_cols df)) (kept_rows pd pn df))))\<rparr>"
    using table_columns[OF assms(2)] table_rows_eq[OF assms(2)] by simp
  then have 2: "bind (add_derived ?B) order_columns = Inr (table res)"
    by (simp add: st(3) st(4))
  have 3: "\<exists>q s pr. cell_at (columns ?B) ''quantity'' (snd r) = Num q \<and>
                  cell_at (columns ?B) ''sales'' (snd r) = Num s \<and>
                  cell_at (columns ?B) ''profit'' (snd r) = Num pr \<and>
                  0 < q \<and> 0 < s \<and> q \<noteq> 0 \<and> s \<noteq> 0 \<and>
                  cell_div (Num s) (Num q) = Num (s / q) \<and>
                  cell_div (Num pr) (Num s) = Num (pr / s)" if "r \<in> set (rows ?B)" for r
  proof -
    have "r \<in> set (kept_rows pd pn df)" using that by simp
    from kept_facts[OF assms(1) req this] obtain q s pr where
      "cell_at (std_cols df) ''quantity'' (snd r) = Num q"
      "cell_at (std_cols df) ''sales'' (snd r) = Num s"
      "cell_at (std_cols df) ''profit'' (snd r) = Num pr" "0 < q" "0 < s"
      by blast
    then show ?thesis by simp
  qed
  show ?thesis using 1 2 3 by blast
qed

theorem no_zero_divisor_witness:
  "len_ok sales_frame \<and> transform parse_iso parse_dec sales_frame = Inr sales_result \<and>
   \<not> isl (bind (bind (bind (validate_columns sales_frame) (coerce parse_iso parse_dec))
              clean_values) drop_bad_rows)"
proof -
  have "\<exists>d. bind (bind (bind (validate_columns sales_frame) (coerce parse_iso parse_dec))
        clean_values) drop_bad_rows = Inr d"
    using no_zero_divisor[OF sales_len sales_run] by blast
  then show ?thesis using sales_len sales_run by auto
qed

text \<open>
  Claim C4, as stated: the logged count is the number of input rows minus the number of
  rows after the positivity filter. On \<open>sales_frame\<close> (seven rows, four of them in the
  table, one an exact duplicate) the logged count is 2, not 3.
\<close>

theorem dropped_count_counterexample:
  "transform parse_iso parse_dec sales_frame = Inr sales_result \<and>
   dropped sales_result = 2 \<and>
   int (length (rows sales_frame)) - int (length (rows (table sales_result))) = 3"
  using sales_run by (simp add: sales_result_def sales_frame_def)

text \<open>
  Claim C4, amended: the logged count is the number of rows after the removal of
  duplicates (line 53 takes \<open>before\<close> after \<open>drop_duplicates\<close>) minus the number of rows
  after the positivity filter; the latter is the number of rows of the table.
\<close>

theorem dropped_count_after_dedup:
  assumes "transform pd pn df = Inr res"
  shows "\<exists>a b. bind (bind (validate_columns df) (coerce pd pn)) clean_values = Inr a \<and>
           drop_bad_rows a = Inr b \<and>
           dropped res = int (length (rows a)) - int (length (rows b)) \<and>
           length (rows b) = length (rows (table res)) \<and>
           length (rows b) \<le> length (rows a) \<and> length (rows a) \<le> length (rows df)"
proof -
  let ?A = "\<lparr>columns = std_cols df, rows = deduped_rows pd pn df\<rparr>"
  let ?B = "\<lparr>columns = std_cols df, rows = kept_rows pd pn df\<rparr>"
  note req = transform_Inr_required[OF assms]
  note st = stages[OF req, of pd pn]
  have d: "dropped res = int (length (rows ?A)) - int (length (rows ?B))"
    using dropped_eq[OF assms] by simp
  have l: "length (rows ?B) = length (rows (table res))"
    unfolding table_rows_eq[OF assms] by simp
  have "length (rows ?B) \<le> length (rows ?A)"
    by (simp add: kept_rows_def le_trans[OF length_filter_le length_filter_le])
  moreover have "length (rows ?A) \<le> length (rows df)"
    using length_first_rows[of "{}" "prepared_rows pd pn df"]
    by (simp add: deduped_rows_def prepared_rows_def)
  ultimately show ?thesis using st(1) st(2) d l by blast
qed

theorem dropped_count_after_dedup_witness:
  "transform parse_iso parse_dec sales_frame = Inr sales_result \<and>
   dropped sales_result = 2 \<and> length (rows (table sales_result)) = 4 \<and>
   length (rows (projr (bind (bind (validate_columns sales_frame) (coerce parse_iso parse_dec))
      clean_values))) = 6"
  using dropped_count_after_dedup[OF sales_run]
proof (elim exE conjE)
  fix a b
  assume a: "bind (bind (validate_columns sales_frame) (coerce parse_iso parse_dec)) clean_values
          = Inr a"
    and d: "dropped sales_result = int (length (rows a)) - int (length (rows b))"
    and l: "length (rows b) = length (rows (table sales_result))"
  have "dropped sales_result = 2" "length (rows (table sales_result)) = 4"
    by (simp_all add: sales_result_def)
  then have "length (rows a) = 6" using d l by simp
  then show ?thesis using sales_run a by (simp add: sales_result_def)
qed

text \<open>
  Claim C9. \<open>drop_duplicates\<close> compares the whole rows: it keeps exactly one row for each
  list of cells that occurs, over all columns of the coerced frame, the extra ones included.
  The two rows of \<open>twin_frame\<close> have the same six required cells and differ in the extra
  column \<open>note\<close>; both survive, and the table has two rows with the same cells in every
  output column.
\<close>

theorem dedup_compares_extra_columns:
  "distinct (map snd (rows (drop_duplicates df))) \<and>
   snd ` set (rows (drop_duplicates df)) = snd ` set (rows df) \<and>
   columns (drop_duplicates df) = columns df \<and>
   columns twin_frame ! 6 = ''note'' \<and>
   take 6 (snd (rows twin_frame ! 0)) = take 6 (snd (rows twin_frame ! 1)) \<and>
   snd (rows twin_frame ! 0) ! 6 \<noteq> snd (rows twin_frame ! 1) ! 6 \<and>
   transform parse_iso parse_dec twin_frame = Inr twin_result \<and>
   length (rows (table twin_result)) = 2 \<and>
   snd (rows (table twin_result) ! 0) = snd (rows (table twin_result) ! 1)"
proof -
  have "distinct (map snd (rows (drop_duplicates df)))"
    by (simp add: drop_duplicates_rows first_rows_distinct)
  moreover have "snd ` set (rows (drop_duplicates df)) = snd ` set (rows df)"
    by (simp add: drop_duplicates_rows first_rows_set)
  moreover have "columns (drop_duplicates df) = columns df"
    by (simp add: drop_duplicates_rows)
  moreover have "columns twin_frame ! 6 = ''note''"
    "take 6 (snd (rows twin_frame ! 0)) = take 6 (snd (rows twin_frame ! 1))"
    "snd (rows twin_frame ! 0) ! 6 \<noteq> snd (rows twin_frame ! 1) ! 6"
    by (simp_all add: twin_frame_def)
  moreover have "length (rows (table twin_result)) = 2"
    "snd (rows (table twin_result) ! 0) = snd (rows (table twin_result) ! 1)"
    by (simp_all add: twin_result_def)
  ultimately show ?thesis using twin_run by blast
qed

text \<open>
  Claim C10. Line 49 replaces a region cell by \<open>Unknown\<close> exactly when it is the missing
  marker or the empty text; every other cell stays as it is, in particular a text that is
  not empty, such as a blank. Accordingly the region of every row of the table is the
  region of an input row, replaced only if it was missing or empty (the other cells of the
  output row are the product and the coerced date and numbers of the same input row).
\<close>

theorem region_fill_only_missing_or_empty:
  "replace (Str []) (Str ''Unknown'') (fillna (Str ''Unknown'') s) =
     map (\<lambda>c. if c = NA \<or> c = Str [] then Str ''Unknown'' else c) s \<and>
   (w \<noteq> [] \<longrightarrow>
      replace (Str []) (Str ''Unknown'') (fillna (Str ''Unknown'') [Str w]) = [Str w]) \<and>
   (len_ok df \<longrightarrow> transform pd pn df = Inr res \<longrightarrow> r \<in> set (rows (table res)) \<longrightarrow>
      (\<exists>r0 \<in> set (rows df).
         cell_at (columns (table res)) ''region'' (snd r) =
           (if cell_at (std_cols df) ''region'' (snd r0) = NA \<or>
               cell_at (std_cols df) ''region'' (snd r0) = Str []
            then Str ''Unknown'' else cell_at (std_cols df) ''region'' (snd r0)) \<and>
         cell_at (columns (table res)) ''product'' (snd r) =
           cell_at (std_cols df) ''product'' (snd r0) \<and>
         cell_at (columns (table res)) ''date'' (snd r) =
           dt_cell pd (cell_at (std_cols df) ''date'' (snd r0)) \<and>
         cell_at (columns (table res)) ''quantity'' (snd r) =
           num_cell pn (cell_at (std_cols df) ''quantity'' (snd r0)) \<and>
         cell_at (columns (table res)) ''sales'' (snd r) =
           num_cell pn (cell_at (std_cols df) ''sales'' (snd r0)) \<and>
         cell_at (columns (table res)) ''profit'' (snd r) =
           num_cell pn (cell_at (std_cols df) ''profit'' (snd r0))))"
proof (intro conjI impI)
  show "replace (Str []) (Str ''Unknown'') (fillna (Str ''Unknown'') s) =
     map (\<lambda>c. if c = NA \<or> c = Str [] then Str ''Unknown'' else c) s"
    by (rule fill_series)
next
  assume "w \<noteq> []"
  then show "replace (Str []) (Str ''Unknown'') (fillna (Str ''Unknown'') [Str w]) = [Str w]"
    by (simp add: fill_series)
next
  assume a: "len_ok df" "transform pd pn df = Inr res" "r \<in> set (rows (table res))"
  show "\<exists>r0 \<in> set (rows df).
         cell_at (columns (table res)) ''region'' (snd r) =
           (if cell_at (std_cols df) ''region'' (snd r0) = NA \<or>
               cell_at (std_cols df) ''region'' (snd r0) = Str []
            then Str ''Unknown'' else cell_at (std_cols df) ''region'' (snd r0)) \<and>
         cell_at (columns (table res)) ''product'' (snd r) =
           cell_at (std_cols df) ''product'' (snd r0) \<and>
         cell_at (columns (table res)) ''date'' (snd r) =
           dt_cell pd (cell_at (std_cols df) ''date'' (snd r0)) \<and>
         cell_at (columns (table res)) ''quantity'' (snd r) =
           num_cell pn (cell_at (std_cols df) ''quantity'' (snd r0)) \<and>
         cell_at (columns (table res)) ''sales'' (snd r) =
           num_cell pn (cell_at (std_cols df) ''sales'' (snd r0)) \<and>
         cell_at (columns (table res)) ''profit'' (snd r) =
           num_cell pn (cell_at (std_cols df) ''profit'' (snd r0))"
    using table_row_origin[OF a]
    unfolding table_columns[OF a(2)] fill_region_eq .
qed

theorem region_fill_only_missing_or_empty_witness:
  "''  '' \<noteq> [] \<and>
   replace (Str []) (Str ''Unknown'') (fillna (Str ''Unknown'') [Str ''  '']) = [Str ''  ''] \<and>
   len_ok sales_frame \<and> transform parse_iso parse_dec sales_frame = Inr sales_result \<and>
   (3, [Ts (2024, 3, 1, 0), Num 2024, Num 3, Str '' '', Str ''Gizmo'',
        Num 4, Num (5 / 2), Num 10, Num 1, Num (1 / 10)]) \<in> set (rows (table sales_result)) \<and>
   rows sales_frame \<noteq> []"
proof -
  let ?r = "(3::int, [Ts (2024, 3, 1, 0), Num 2024, Num 3, Str '' '', Str ''Gizmo'',
        Num 4, Num (5 / 2), Num 10, Num 1, Num (1 / 10)])"
  note t = region_fill_only_missing_or_empty[of "[]" "''  ''" sales_frame parse_iso parse_dec
      sales_result ?r]
  have w: "''  '' \<noteq> []" by simp
  have h3: "?r \<in> set (rows (table sales_result))" by (simp add: sales_result_def)
  from t w have 1: "replace (Str []) (Str ''Unknown'') (fillna (Str ''Unknown'') [Str ''  ''])
      = [Str ''  '']"
    by blast
  from t sales_len sales_run h3 have "\<exists>r0. r0 \<in> set (rows sales_frame)"
    by blast
  then have 2: "rows sales_frame \<noteq> []" by auto
  show ?thesis using w 1 2 sales_len sales_run h3 by blast
qed



text \<open>
  Claim C3. On every coerced frame the sanitizer of \<open>transform\<close> (lines 49 to 55:
  \<open>clean_values\<close>, then \<open>drop_bad_rows\<close>) returns what the four steps of the
  specification return when applied in their order: fill the region, remove exact
  duplicates keeping the first occurrence, remove rows with a missing required value,
  remove rows with a quantity or sales that is not positive. For the row of the scenario
  the sanitizer keeps the row, with region \<open>Unknown\<close> and with its negative profit, and so
  does the table.
\<close>

theorem sanitizer_steps_in_order:
  "(len_ok df \<longrightarrow> required \<subseteq> set (map std_name (columns df)) \<longrightarrow>
      (\<exists>c. bind (validate_columns df) (coerce pd pn) = Inr c \<and>
           bind (clean_values c) drop_bad_rows = Inr (spec_sanitize c))) \<and>
   rows gadget_frame =
     [(0, [Str ''2024-02-01'', Str [], Str ''Gadget'', Str ''5'', Str ''50'', Str ''-5''])] \<and>
   bind (bind (bind (validate_columns gadget_frame) (coerce parse_iso parse_dec)) clean_values)
     drop_bad_rows =
     Inr \<lparr>columns = [''date'', ''region'', ''product'', ''quantity'', ''sales'', ''profit''],
          rows = [(0, [Ts (2024, 2, 1, 0), Str ''Unknown'', Str ''Gadget'', Num 5, Num 50,
                       Num (- 5)])]\<rparr> \<and>
   transform parse_iso parse_dec gadget_frame = Inr gadget_result \<and>
   map (\<lambda>r. (cell_at (columns (table gadget_result)) ''region'' (snd r),
             cell_at (columns (table gadget_result)) ''profit'' (snd r)))
     (rows (table gadget_result)) = [(Str ''Unknown'', Num (- 5))]"
proof (intro conjI impI)
  assume a: "len_ok df" "required \<subseteq> set (map std_name (columns df))"
  then have req: "required \<subseteq> set (std_cols df)" by (simp add: std_cols_def)
  show "\<exists>c. bind (validate_columns df) (coerce pd pn) = Inr c \<and>
           bind (clean_values c) drop_bad_rows = Inr (spec_sanitize c)"
    using sanitizer_refines[OF a(1) req, of pd pn] by blast
next
  show "rows gadget_frame =
     [(0, [Str ''2024-02-01'', Str [], Str ''Gadget'', Str ''5'', Str ''50'', Str ''-5''])]"
    by (simp add: gadget_frame_def)
next
  show "bind (bind (bind (validate_columns gadget_frame) (coerce parse_iso parse_dec)) clean_values)
     drop_bad_rows =
     Inr \<lparr>columns = [''date'', ''region'', ''product'', ''quantity'', ''sales'', ''profit''],
          rows = [(0, [Ts (2024, 2, 1, 0), Str ''Unknown'', Str ''Gadget'', Num 5, Num 50,
                       Num (- 5)])]\<rparr>"
    by (rule gadget_sanitized)
next
  show "transform parse_iso parse_dec gadget_frame = Inr gadget_result"
    by (rule gadget_run)
next
  show "map (\<lambda>r. (cell_at (columns (table gadget_result)) ''region'' (snd r),
             cell_at (columns (table gadget_result)) ''profit'' (snd r)))
     (rows (table gadget_result)) = [(Str ''Unknown'', Num (- 5))]"
    by (simp add: gadget_result_def cell_at_def)
qed

theorem sanitizer_steps_in_order_witness:
  "len_ok sales_frame \<and> required \<subseteq> set (map std_name (columns sales_frame)) \<and>
   \<not> isl (bind (validate_columns sales_frame) (coerce parse_iso parse_dec)) \<and>
   bind (clean_values (projr (bind (validate_columns sales_frame) (coerce parse_iso parse_dec))))
     drop_bad_rows =
   Inr (spec_sanitize (projr (bind (validate_columns sales_frame) (coerce parse_iso parse_dec))))"
proof -
  from sanitizer_steps_in_order[of sales_frame parse_iso parse_dec] sales_len sales_required
  have "\<exists>c. bind (validate_columns sales_frame) (coerce parse_iso parse_dec) = Inr c \<and>
           bind (clean_values c) drop_bad_rows = Inr (spec_sanitize c)"
    by blast
  then show ?thesis using sales_len sales_required by auto
qed





end
